theory Spec2Isabelle
  imports Main
begin

section \<open>JSON values\<close>

text \<open>
  The request body, the validated specification and every response body are JSON values.
  A string is a list of characters. A number is kept as the text that the language's
  number-to-string conversion gives for it (\<open>''3''\<close>, \<open>''0.1''\<close>): the service never
  computes with the numbers of a document, it copies and prints them. A number that is
  not finite (a literal too large for a double) is \<open>NonFinite\<close>.
  An object is the list of its own properties in enumeration order, which is the order
  \<open>Object.keys\<close>, \<open>for ... in\<close> and \<open>JSON.stringify\<close> all follow; its keys are distinct.
\<close>

datatype jsnumber = Finite string | NonFinite

datatype json =
    JNull
  | JBool bool
  | JNum jsnumber
  | JStr string
  | JArr "json list"
  | JObj "(string \<times> json) list"

text \<open>\<open>Object.keys(o)\<close>.\<close>

definition Object_keys :: "(string \<times> 'a) list \<Rightarrow> string list" where
  "Object_keys o' = map fst o'"

text \<open>The invariant of an object: no key occurs twice.\<close>

definition distinct_keys :: "(string \<times> 'a) list \<Rightarrow> bool" where
  "distinct_keys o' = distinct (Object_keys o')"

text \<open>Property access \<open>o[k]\<close> on the own properties; \<open>None\<close> is \<open>undefined\<close>.\<close>

definition get_prop :: "json \<Rightarrow> string \<Rightarrow> json option" where
  "get_prop v k = (case v of JObj kvs \<Rightarrow> map_of kvs k | _ \<Rightarrow> None)"

definition has_key :: "json \<Rightarrow> string \<Rightarrow> bool" where
  "has_key v k = (case v of JObj kvs \<Rightarrow> k \<in> set (Object_keys kvs) | _ \<Rightarrow> False)"

section \<open>Regular expressions\<close>

text \<open>
  The regular expressions that the version pattern \<open>/^3\.\d+\.\d+$/\<close> is written in.
  The pattern is anchored at both ends and carries no flag, so \<open>test\<close> succeeds exactly
  when the whole string matches it; \<open>\d\<close> is one of the ten ASCII digits. Matching is by
  derivatives.
\<close>

datatype regex =
    Zero
  | One
  | Lit char
  | Digit
  | Alt regex regex
  | Seq regex regex
  | Star regex

definition Plus :: "regex \<Rightarrow> regex" where
  "Plus r = Seq r (Star r)"

definition is_digit :: "char \<Rightarrow> bool" where
  "is_digit c = (c \<in> set ''0123456789'')"

fun nullable :: "regex \<Rightarrow> bool" where
  "nullable Zero = False"
| "nullable One = True"
| "nullable (Lit c) = False"
| "nullable Digit = False"
| "nullable (Alt r s) = (nullable r \<or> nullable s)"
| "nullable (Seq r s) = (nullable r \<and> nullable s)"
| "nullable (Star r) = True"

fun deriv :: "char \<Rightarrow> regex \<Rightarrow> regex" where
  "deriv c Zero = Zero"
| "deriv c One = Zero"
| "deriv c (Lit d) = (if c = d then One else Zero)"
| "deriv c Digit = (if is_digit c then One else Zero)"
| "deriv c (Alt r s) = Alt (deriv c r) (deriv c s)"
| "deriv c (Seq r s) =
     (if nullable r then Alt (Seq (deriv c r) s) (deriv c s) else Seq (deriv c r) s)"
| "deriv c (Star r) = Seq (deriv c r) (Star r)"

fun regex_test :: "regex \<Rightarrow> string \<Rightarrow> bool" where
  "regex_test r [] = nullable r"
| "regex_test r (c # cs) = regex_test (deriv c r) cs"

section \<open>The schema library\<close>

text \<open>
  The schema combinators the service uses, and the library's parser for them.
  An issue carries the path of the value it is about and a message.
\<close>

datatype issue_code = invalid_type | invalid_string

record issue =
  code :: issue_code
  path :: "string list"
  message :: string

datatype zschema =
    ZString "(regex \<times> string) list"
  | ZAny
  | ZRecord zschema
  | ZObject "(string \<times> zschema) list"
  | ZOptional zschema

text \<open>The library's name for the type of a value; \<open>None\<close> is \<open>undefined\<close>.\<close>

fun getParsedType :: "json option \<Rightarrow> string" where
  "getParsedType None = ''undefined''"
| "getParsedType (Some JNull) = ''null''"
| "getParsedType (Some (JBool b)) = ''boolean''"
| "getParsedType (Some (JNum n)) = ''number''"
| "getParsedType (Some (JStr s)) = ''string''"
| "getParsedType (Some (JArr xs)) = ''array''"
| "getParsedType (Some (JObj kvs)) = ''object''"

text \<open>The default message of a type mismatch: a missing value is \<open>Required\<close>.\<close>

definition invalid_type_issue :: "string \<Rightarrow> json option \<Rightarrow> string list \<Rightarrow> issue" where
  "invalid_type_issue expected received p =
     \<lparr>code = invalid_type, path = p,
      message = (if received = None then ''Required''
                 else ''Expected '' @ expected @ '', received '' @ getParsedType received)\<rparr>"

text \<open>
  Every check of a string schema runs; each one that fails adds its issue.
\<close>

definition string_checks :: "(regex \<times> string) list \<Rightarrow> string list \<Rightarrow> string \<Rightarrow> issue list" where
  "string_checks checks p s =
     map (\<lambda>(re, msg). \<lparr>code = invalid_string, path = p, message = msg\<rparr>)
       (filter (\<lambda>(re, msg). \<not> regex_test re s) checks)"

text \<open>
  The parsed properties of an object or record are merged into a fresh object: when any
  of them raised an issue the parse fails with all the issues, in order; otherwise the
  result holds every property whose value is defined, except one named \<open>__proto__\<close>.
\<close>

fun issues_of :: "issue list + 'a \<Rightarrow> issue list" where
  "issues_of (Inl is) = is"
| "issues_of (Inr v) = []"

fun defined_props :: "(string \<times> (issue list + json option)) list \<Rightarrow> (string \<times> json) list" where
  "defined_props [] = []"
| "defined_props ((k, Inr (Some v)) # rest) =
     (if k \<noteq> ''__proto__'' then (k, v) # defined_props rest else defined_props rest)"
| "defined_props ((k, r) # rest) = defined_props rest"

definition mergeObject :: "(string \<times> (issue list + json option)) list \<Rightarrow> issue list + json option" where
  "mergeObject pairs =
     (case concat (map (issues_of \<circ> snd) pairs) of
        [] \<Rightarrow> Inr (Some (JObj (defined_props pairs)))
      | is \<Rightarrow> Inl is)"

text \<open>
  The parser. A string schema fails on anything but a string, before its checks run.
  \<open>any\<close> accepts its input as it is. An optional schema accepts \<open>undefined\<close>. A record
  parses every property of its input with the value schema. An object parses, for each
  key of its shape in the shape's order, the input's property of that name, so a
  property the shape does not name is left out of the result.
\<close>

fun zparse :: "zschema \<Rightarrow> string list \<Rightarrow> json option \<Rightarrow> issue list + json option" where
  "zparse (ZString checks) p input =
     (case input of
        Some (JStr s) \<Rightarrow>
          (case string_checks checks p s of [] \<Rightarrow> Inr (Some (JStr s)) | is \<Rightarrow> Inl is)
      | _ \<Rightarrow> Inl [invalid_type_issue ''string'' input p])"
| "zparse ZAny p input = Inr input"
| "zparse (ZOptional inner) p input =
     (case input of None \<Rightarrow> Inr None | Some v \<Rightarrow> zparse inner p input)"
| "zparse (ZRecord valueType) p input =
     (case input of
        Some (JObj kvs) \<Rightarrow>
          mergeObject (map (\<lambda>kv. (fst kv, zparse valueType (p @ [fst kv]) (Some (snd kv)))) kvs)
      | _ \<Rightarrow> Inl [invalid_type_issue ''object'' input p])"
| "zparse (ZObject shape) p input =
     (case input of
        Some (JObj kvs) \<Rightarrow>
          mergeObject (map (\<lambda>ks. (fst ks, zparse (snd ks) (p @ [fst ks]) (map_of kvs (fst ks)))) shape)
      | _ \<Rightarrow> Inl [invalid_type_issue ''object'' input p])"

definition safeParse :: "zschema \<Rightarrow> json \<Rightarrow> issue list + json" where
  "safeParse schema data =
     (case zparse schema [] (Some data) of
        Inl is \<Rightarrow> Inl is
      | Inr None \<Rightarrow> Inl []
      | Inr (Some v) \<Rightarrow> Inr v)"

section \<open>The specification schema\<close>

definition openapi_version_pattern :: regex where
  "openapi_version_pattern =
     Seq (Lit (CHR ''3'')) (Seq (Lit (CHR ''.'')) (Seq (Plus Digit)
       (Seq (Lit (CHR ''.'')) (Plus Digit))))"

definition openApiSchema :: zschema where
  "openApiSchema = ZObject
     [(''openapi'', ZString [(openapi_version_pattern, ''Must be OpenAPI 3.x.x'')]),
      (''info'', ZObject [(''title'', ZString []), (''version'', ZString [])]),
      (''paths'', ZRecord ZAny),
      (''components'', ZOptional (ZObject [(''schemas'', ZOptional (ZRecord ZAny))]))]"

text \<open>
  \<open>ZodError.format()\<close>: the issues as a tree of objects that follows their paths. Every
  node has the list \<open>_errors\<close> of the messages raised at that very path, and one
  property for each next path element seen, in the order of first appearance.
\<close>

fun set_prop :: "string \<Rightarrow> json \<Rightarrow> (string \<times> json) list \<Rightarrow> (string \<times> json) list" where
  "set_prop k v [] = [(k, v)]"
| "set_prop k v ((k', v') # rest) =
     (if k' = k then (k, v) # rest else (k', v') # set_prop k v rest)"

definition push_error :: "string \<Rightarrow> (string \<times> json) list \<Rightarrow> (string \<times> json) list" where
  "push_error msg node =
     (case map_of node ''_errors'' of
        Some (JArr es) \<Rightarrow> set_prop ''_errors'' (JArr (es @ [JStr msg])) node
      | _ \<Rightarrow> set_prop ''_errors'' (JArr [JStr msg]) node)"

definition empty_node :: "(string \<times> json) list" where
  "empty_node = [(''_errors'', JArr [])]"

fun add_issue :: "string list \<Rightarrow> string \<Rightarrow> (string \<times> json) list \<Rightarrow> (string \<times> json) list" where
  "add_issue [] msg node = push_error msg node"
| "add_issue (el # rest) msg node =
     (let child = (case map_of node el of Some (JObj c) \<Rightarrow> c | _ \<Rightarrow> empty_node)
      in set_prop el (JObj (add_issue rest msg child)) node)"

definition format :: "issue list \<Rightarrow> json" where
  "format issues = JObj (foldl (\<lambda>node i. add_issue (path i) (message i) node) empty_node issues)"

section \<open>Serialising JSON\<close>

text \<open>
  \<open>JSON.stringify(value, null, space)\<close> for a numeric \<open>space\<close>: the gap is that many
  blanks, at most ten. With an empty gap the text has no line breaks.
\<close>

definition hex_digit :: "nat \<Rightarrow> char" where
  "hex_digit n = ''0123456789abcdef'' ! (n mod 16)"

definition quote_char :: "char \<Rightarrow> string" where
  "quote_char c =
     (if c = CHR 0x22 then [CHR 0x5C, CHR 0x22]
      else if c = CHR 0x5C then [CHR 0x5C, CHR 0x5C]
      else if c = CHR 0x08 then [CHR 0x5C, CHR ''b'']
      else if c = CHR 0x0C then [CHR 0x5C, CHR ''f'']
      else if c = CHR 0x0A then [CHR 0x5C, CHR ''n'']
      else if c = CHR 0x0D then [CHR 0x5C, CHR ''r'']
      else if c = CHR 0x09 then [CHR 0x5C, CHR ''t'']
      else if (of_char c :: nat) < 0x20 then
        [CHR 0x5C, CHR ''u'', CHR ''0'', CHR ''0'',
         hex_digit (of_char c div 16), hex_digit (of_char c mod 16)]
      else [c])"

definition QuoteJSONString :: "string \<Rightarrow> string" where
  "QuoteJSONString s = [CHR 0x22] @ concat (map quote_char s) @ [CHR 0x22]"

fun join :: "string \<Rightarrow> string list \<Rightarrow> string" where
  "join sep [] = []"
| "join sep [x] = x"
| "join sep (x # y # ys) = x @ sep @ join sep (y # ys)"

definition wrap :: "string \<Rightarrow> string \<Rightarrow> string \<Rightarrow> string \<Rightarrow> string list \<Rightarrow> string" where
  "wrap opening closing gap stepback partial =
     (if partial = [] then opening @ closing
      else if gap = [] then opening @ join '','' partial @ closing
      else opening @ ''\<newline>'' @ stepback @ gap
             @ join ('','' @ ''\<newline>'' @ stepback @ gap) partial
             @ ''\<newline>'' @ stepback @ closing)"

fun SerializeJSONProperty :: "string \<Rightarrow> string \<Rightarrow> json \<Rightarrow> string" where
  "SerializeJSONProperty gap indent JNull = ''null''"
| "SerializeJSONProperty gap indent (JBool b) = (if b then ''true'' else ''false'')"
| "SerializeJSONProperty gap indent (JNum n) = (case n of Finite t \<Rightarrow> t | NonFinite \<Rightarrow> ''null'')"
| "SerializeJSONProperty gap indent (JStr s) = QuoteJSONString s"
| "SerializeJSONProperty gap indent (JArr xs) =
     wrap ''['' '']'' gap indent (map (SerializeJSONProperty gap (indent @ gap)) xs)"
| "SerializeJSONProperty gap indent (JObj kvs) =
     wrap ''{'' ''}'' gap indent
       (map (\<lambda>kv. QuoteJSONString (fst kv) @ '':'' @ (if gap = [] then [] else '' '')
                    @ SerializeJSONProperty gap (indent @ gap) (snd kv)) kvs)"

definition JSON_stringify :: "json \<Rightarrow> nat \<Rightarrow> string" where
  "JSON_stringify v space = SerializeJSONProperty (replicate (min 10 space) (CHR '' '')) [] v"

section \<open>The clock\<close>

text \<open>
  A time value is a number of milliseconds since the epoch, at most \<open>8.64e15\<close> in
  magnitude. \<open>toISOString\<close> prints its UTC calendar fields as
  \<open>YYYY-MM-DDTHH:mm:ss.sssZ\<close>, with a sign and six digits for a year outside 0..9999.
\<close>

definition valid_time :: "int \<Rightarrow> bool" where
  "valid_time t = (- 8640000000000000 \<le> t \<and> t \<le> 8640000000000000)"

definition msPerDay :: int where
  "msPerDay = 86400000"

definition Day :: "int \<Rightarrow> int" where
  "Day t = t div msPerDay"

definition DayFromYear :: "int \<Rightarrow> int" where
  "DayFromYear y =
     365 * (y - 1970) + (y - 1969) div 4 - (y - 1901) div 100 + (y - 1601) div 400"

definition DaysInYear :: "int \<Rightarrow> int" where
  "DaysInYear y =
     (if y mod 4 \<noteq> 0 then 365
      else if y mod 100 \<noteq> 0 then 366
      else if y mod 400 \<noteq> 0 then 365
      else 366)"

text \<open>
  The year of a day is the largest year that starts on or before it. The search goes up
  from a year that starts no later than the day.
\<close>

lemma div_succ:
  assumes "1 < k"
  shows "((x::int) + 1) div k = x div k + (if (x + 1) mod k = 0 then 1 else 0)"
proof -
  let ?r = "x mod k"
  have r: "0 \<le> ?r" "?r < k" using assms by simp_all
  have "(x + 1) div k = x div k + 1 div k + (?r + 1 mod k) div k"
    by (rule div_add1_eq)
  moreover have "1 div k = 0" "1 mod k = 1" using assms by simp_all
  ultimately have step: "(x + 1) div k = x div k + (?r + 1) div k" by simp
  have m: "(x + 1) mod k = (?r + 1) mod k" by (simp add: mod_add_left_eq)
  have "(?r + 1) div k = (if (x + 1) mod k = 0 then 1 else 0)"
  proof (cases "?r = k - 1")
    case True
    then have "?r + 1 = k" by simp
    with assms m show ?thesis by simp
  next
    case False
    with r have lt: "?r + 1 < k" by linarith
    with r have "(?r + 1) div k = 0" "(?r + 1) mod k = ?r + 1"
      by (simp_all add: div_pos_pos_trivial)
    with r m show ?thesis by simp
  qed
  with step show ?thesis by simp
qed

lemma year_steps:
  "((y::int) + 1 - 1969) div 4 = (y - 1969) div 4 + (if y mod 4 = 0 then 1 else 0)"
  "(y + 1 - 1901) div 100 = (y - 1901) div 100 + (if y mod 100 = 0 then 1 else 0)"
  "(y + 1 - 1601) div 400 = (y - 1601) div 400 + (if y mod 400 = 0 then 1 else 0)"
proof -
  have "(y - 1968) mod 4 = y mod 4"
    using mod_mult_self1 [of y "-492" 4] by simp
  then show "(y + 1 - 1969) div 4 = (y - 1969) div 4 + (if y mod 4 = 0 then 1 else 0)"
    using div_succ [of 4 "y - 1969"] by (simp add: algebra_simps)
  have "(y - 1900) mod 100 = y mod 100"
    using mod_mult_self1 [of y "-19" 100] by simp
  then show "(y + 1 - 1901) div 100 = (y - 1901) div 100 + (if y mod 100 = 0 then 1 else 0)"
    using div_succ [of 100 "y - 1901"] by (simp add: algebra_simps)
  have "(y - 1600) mod 400 = y mod 400"
    using mod_mult_self1 [of y "-4" 400] by simp
  then show "(y + 1 - 1601) div 400 = (y - 1601) div 400 + (if y mod 400 = 0 then 1 else 0)"
    using div_succ [of 400 "y - 1601"] by (simp add: algebra_simps)
qed

lemma leap_mods:
  "(y::int) mod 100 = 0 \<Longrightarrow> y mod 4 = 0"
  "(y::int) mod 400 = 0 \<Longrightarrow> y mod 100 = 0"
proof -
  have "(4::int) dvd 100" "(100::int) dvd 400" by simp_all
  then show "y mod 100 = 0 \<Longrightarrow> y mod 4 = 0" "y mod 400 = 0 \<Longrightarrow> y mod 100 = 0"
    by (meson dvd_trans mod_eq_0_iff_dvd)+
qed

lemma DayFromYear_Suc: "DayFromYear (y + 1) = DayFromYear y + DaysInYear y"
  unfolding DayFromYear_def DaysInYear_def year_steps
  using leap_mods [of y] by (simp split: if_splits)

lemma DayFromYear_step: "DayFromYear y + 365 \<le> DayFromYear (y + 1)"
  unfolding DayFromYear_Suc by (simp add: DaysInYear_def)

function year_search :: "int \<Rightarrow> int \<Rightarrow> int" where
  "year_search d y = (if DayFromYear (y + 1) \<le> d then year_search d (y + 1) else y)"
  by pat_completeness auto
termination
proof (relation "measure (\<lambda>(d, y). nat (d - DayFromYear y))")
  show "wf (measure (\<lambda>(d, y). nat (d - DayFromYear y)))"
    by simp
next
  fix d y :: int
  assume "DayFromYear (y + 1) \<le> d"
  with DayFromYear_step [of y]
  show "((d, y + 1), (d, y)) \<in> measure (\<lambda>(d, y). nat (d - DayFromYear y))"
    by simp
qed

definition YearFromDay :: "int \<Rightarrow> int" where
  "YearFromDay d = year_search d (1970 + (if 0 \<le> d then d div 366 else d div 365))"

definition YearFromTime :: "int \<Rightarrow> int" where
  "YearFromTime t = YearFromDay (Day t)"

definition InLeapYear :: "int \<Rightarrow> int" where
  "InLeapYear t = (if DaysInYear (YearFromTime t) = 366 then 1 else 0)"

definition DayWithinYear :: "int \<Rightarrow> int" where
  "DayWithinYear t = Day t - DayFromYear (YearFromTime t)"

definition MonthFromTime :: "int \<Rightarrow> int" where
  "MonthFromTime t =
     (let d = DayWithinYear t; l = InLeapYear t in
      if d < 31 then 0
      else if d < 59 + l then 1
      else if d < 90 + l then 2
      else if d < 120 + l then 3
      else if d < 151 + l then 4
      else if d < 181 + l then 5
      else if d < 212 + l then 6
      else if d < 243 + l then 7
      else if d < 273 + l then 8
      else if d < 304 + l then 9
      else if d < 334 + l then 10
      else 11)"

definition DateFromTime :: "int \<Rightarrow> int" where
  "DateFromTime t =
     (let d = DayWithinYear t; l = InLeapYear t; m = MonthFromTime t in
      if m = 0 then d + 1
      else if m = 1 then d - 30
      else if m = 2 then d - 58 - l
      else if m = 3 then d - 89 - l
      else if m = 4 then d - 119 - l
      else if m = 5 then d - 150 - l
      else if m = 6 then d - 180 - l
      else if m = 7 then d - 211 - l
      else if m = 8 then d - 242 - l
      else if m = 9 then d - 272 - l
      else if m = 10 then d - 303 - l
      else d - 333 - l)"

definition HourFromTime :: "int \<Rightarrow> int" where
  "HourFromTime t = (t div 3600000) mod 24"

definition MinFromTime :: "int \<Rightarrow> int" where
  "MinFromTime t = (t div 60000) mod 60"

definition SecFromTime :: "int \<Rightarrow> int" where
  "SecFromTime t = (t div 1000) mod 60"

definition msFromTime :: "int \<Rightarrow> int" where
  "msFromTime t = t mod 1000"

text \<open>The decimal digits of a number, and the number padded with zeros on the left.\<close>

definition digit_char :: "nat \<Rightarrow> char" where
  "digit_char n = ''0123456789'' ! (n mod 10)"

fun decimal :: "nat \<Rightarrow> string" where
  "decimal n = (if n < 10 then [digit_char n] else decimal (n div 10) @ [digit_char n])"

declare decimal.simps [simp del]

definition padStart :: "nat \<Rightarrow> string \<Rightarrow> string" where
  "padStart w s = replicate (w - length s) (CHR ''0'') @ s"

definition pad :: "nat \<Rightarrow> int \<Rightarrow> string" where
  "pad w n = padStart w (decimal (nat n))"

definition toISOString :: "int \<Rightarrow> string" where
  "toISOString t =
     (let y = YearFromTime t in
      (if 0 \<le> y \<and> y \<le> 9999 then pad 4 y
       else (if 0 \<le> y then ''+'' else ''-'') @ pad 6 (abs y))
      @ ''-'' @ pad 2 (MonthFromTime t + 1) @ ''-'' @ pad 2 (DateFromTime t)
      @ ''T'' @ pad 2 (HourFromTime t) @ '':'' @ pad 2 (MinFromTime t)
      @ '':'' @ pad 2 (SecFromTime t) @ ''.'' @ pad 3 (msFromTime t) @ ''Z'')"

section \<open>The generation endpoint\<close>

text \<open>
  A thrown value is an \<open>Error\<close> with its message, or a value of some other kind.
\<close>

datatype thrown = Error_instance string | Other_value

record response =
  status :: nat
  payload :: json

text \<open>
  An object literal whose property values may be \<open>undefined\<close>: such a property does not
  appear in the JSON of a response.
\<close>

fun object_literal :: "(string \<times> json option) list \<Rightarrow> json" where
  "object_literal props = JObj (concat (map (\<lambda>kv. case snd kv of None \<Rightarrow> [] | Some v \<Rightarrow> [(fst kv, v)]) props))"

text \<open>
  Reading a property: of \<open>undefined\<close> or \<open>null\<close> it throws a \<open>TypeError\<close>, of an object it
  gives the property or \<open>undefined\<close>, of any other JSON value \<open>undefined\<close> for the names
  read here.
\<close>

fun member :: "json option \<Rightarrow> string \<Rightarrow> thrown + json option" where
  "member None k =
     Inl (Error_instance (''Cannot read properties of undefined (reading '' @ [CHR 0x27] @ k @ [CHR 0x27] @ '')''))"
| "member (Some JNull) k =
     Inl (Error_instance (''Cannot read properties of null (reading '' @ [CHR 0x27] @ k @ [CHR 0x27] @ '')''))"
| "member (Some (JObj kvs)) k = Inr (map_of kvs k)"
| "member (Some v) k = Inr None"

text \<open>
  What the handler passes to \<open>generateObject\<close>. The model is the client made at start-up
  from the key; the schema asks for a record from strings to strings.
\<close>

record generate_args =
  model :: string
  schema :: zschema
  system :: string
  prompt :: string
  temperature :: jsnumber

text \<open>
  What one request meets outside the handler: the outcome of reading the body as JSON,
  the outcome of the external generation for given arguments (the generated files, an
  object from path to content, or a thrown value), and the reading of the clock.
\<close>

record request_env =
  req_json :: "thrown + json"
  generateObject :: "generate_args \<Rightarrow> thrown + (string \<times> string) list"
  now :: int

definition systemPrompt :: string where
  "systemPrompt =
     ''You are an expert full-stack developer specializing in creating robust, production-ready backend services with Hono.js and TypeScript.\<newline>'' @
     ''\<newline>'' @
     ''**TASK:** Generate a complete Hono.js project from the provided OpenAPI 3.0 specification.\<newline>'' @
     ''\<newline>'' @
     ''**OUTPUT FORMAT:** Return a JSON object where:\<newline>'' @
     ''- Keys are file paths (e.g., \"src/routes/users.ts\", \"src/models/User.ts\")\<newline>'' @
     ''- Values are the complete file contents as strings\<newline>'' @
     ''\<newline>'' @
     ''**PROJECT STRUCTURE:**\<newline>'' @
     ''1. **src/index.ts**: Main entry point with Hono app initialization\<newline>'' @
     ''2. **src/routes/*.ts**: Route handlers organized by resource\<newline>'' @
     ''3. **src/models/*.ts**: TypeScript interfaces/types from OpenAPI schemas\<newline>'' @
     ''4. **src/middleware/*.ts**: Custom middleware if needed\<newline>'' @
     ''5. **src/utils/*.ts**: Utility functions\<newline>'' @
     ''6. **package.json**: Complete dependencies\<newline>'' @
     ''7. **tsconfig.json**: TypeScript configuration\<newline>'' @
     ''8. **README.md**: Setup and usage instructions\<newline>'' @
     ''\<newline>'' @
     ''**CODE REQUIREMENTS:**\<newline>'' @
     ''- Use TypeScript with proper typing\<newline>'' @
     ''- Implement proper error handling\<newline>'' @
     ''- Add input validation using Zod\<newline>'' @
     ''- Include proper HTTP status codes\<newline>'' @
     ''- Add JSDoc comments for functions\<newline>'' @
     ''- Use consistent code formatting\<newline>'' @
     ''- Include example request/response data in comments\<newline>'' @
     ''\<newline>'' @
     ''**DEPENDENCIES TO INCLUDE:**\<newline>'' @
     ''- hono (latest)\<newline>'' @
     ''- @hono/node-server\<newline>'' @
     ''- zod (for validation)\<newline>'' @
     ''- @types/node\<newline>'' @
     ''- typescript\<newline>'' @
     ''- tsx (for development)\<newline>'' @
     ''\<newline>'' @
     ''Generate production-ready, well-documented code that follows best practices.''"

definition userPrompt :: "json \<Rightarrow> string" where
  "userPrompt openapiSpec =
     ''Generate a complete Hono.js project for this OpenAPI specification:\<newline>\<newline>''
       @ JSON_stringify openapiSpec 2"

text \<open>The arguments of the one call of the external generation.\<close>

definition generation_call :: "string \<Rightarrow> json \<Rightarrow> generate_args" where
  "generation_call googleClient openapiSpec =
     \<lparr>model = googleClient, schema = ZRecord (ZString []),
      system = systemPrompt, prompt = userPrompt openapiSpec,
      temperature = Finite ''0.1''\<rparr>"

text \<open>The success response, from the two strings read off the specification.\<close>

definition success_response ::
  "json option \<Rightarrow> json option \<Rightarrow> int \<Rightarrow> (string \<times> string) list \<Rightarrow> response" where
  "success_response apiTitle apiVersion t generatedFiles =
     \<lparr>status = 200,
      payload = object_literal
        [(''success'', Some (JBool True)),
         (''metadata'', Some (object_literal
            [(''apiTitle'', apiTitle),
             (''apiVersion'', apiVersion),
             (''generatedAt'', Some (JStr (toISOString t))),
             (''fileCount'', Some (JNum (Finite (decimal (length (Object_keys generatedFiles)))))),
             (''files'', Some (JArr (map JStr (Object_keys generatedFiles))))])),
         (''files'', Some (JObj (map (\<lambda>kv. (fst kv, JStr (snd kv))) generatedFiles)))]\<rparr>"

text \<open>
  The body of the \<open>try\<close> block: the response it returns or the value it throws, together
  with the calls of the external generation it made, in order.
\<close>

definition generate_try :: "string \<Rightarrow> request_env \<Rightarrow> (thrown + response) \<times> generate_args list" where
  "generate_try googleClient rq =
     (case req_json rq of
        Inl e \<Rightarrow> (Inl e, [])
      | Inr body \<Rightarrow>
          (case safeParse openApiSchema body of
             Inl zerr \<Rightarrow>
               (Inr \<lparr>status = 400,
                     payload = JObj [(''error'', JStr ''Invalid OpenAPI specification''),
                                     (''details'', format zerr)]\<rparr>, [])
           | Inr openapiSpec \<Rightarrow>
               (let args = generation_call googleClient openapiSpec
                in case generateObject rq args of
                     Inl e \<Rightarrow> (Inl e, [args])
                   | Inr generatedFiles \<Rightarrow>
                       (case member (Some openapiSpec) ''info'' of
                          Inl e \<Rightarrow> (Inl e, [args])
                        | Inr info \<Rightarrow>
                            (case member info ''title'' of
                               Inl e \<Rightarrow> (Inl e, [args])
                             | Inr apiTitle \<Rightarrow>
                                 (case member info ''version'' of
                                    Inl e \<Rightarrow> (Inl e, [args])
                                  | Inr apiVersion \<Rightarrow>
                                      (Inr (success_response apiTitle apiVersion (now rq)
                                              generatedFiles),
                                       [args])))))))"

text \<open>The \<open>catch\<close> block.\<close>

definition generate_catch :: "thrown \<Rightarrow> int \<Rightarrow> response" where
  "generate_catch error t =
     (case error of
        Error_instance msg \<Rightarrow>
          \<lparr>status = 500,
           payload = JObj [(''error'', JStr ''Code generation failed''),
                        (''message'', JStr msg),
                        (''timestamp'', JStr (toISOString t))]\<rparr>
      | Other_value \<Rightarrow>
          \<lparr>status = 500,
           payload = JObj [(''error'', JStr ''Unknown error occurred during code generation''),
                        (''timestamp'', JStr (toISOString t))]\<rparr>)"

text \<open>The handler of \<open>POST /generate\<close>: its response and the generation calls it made.\<close>

definition generate_handler :: "string \<Rightarrow> request_env \<Rightarrow> response \<times> generate_args list" where
  "generate_handler googleClient rq =
     (case generate_try googleClient rq of
        (Inr r, calls) \<Rightarrow> (r, calls)
      | (Inl e, calls) \<Rightarrow> (generate_catch e (now rq), calls))"

section \<open>Start-up\<close>

text \<open>
  The configuration is read from the process environment, a map from names to strings.
  \<open>a || b\<close> is \<open>b\<close> when \<open>a\<close> is \<open>undefined\<close> or the empty string. The port stays the
  string of the environment when there is one, and is the number 3000 otherwise.
\<close>

datatype port_setting = Port_text string | Port_number nat

record env =
  PORT :: port_setting
  GOOGLE_API_KEY :: "string option"
  NODE_ENV :: string

definition load_env :: "(string \<rightharpoonup> string) \<Rightarrow> env" where
  "load_env process_env =
     \<lparr>PORT = (case process_env ''PORT'' of
                None \<Rightarrow> Port_number 3000
              | Some p \<Rightarrow> if p = [] then Port_number 3000 else Port_text p),
      GOOGLE_API_KEY = process_env ''GOOGLE_API_KEY'',
      NODE_ENV = (case process_env ''NODE_ENV'' of
                    None \<Rightarrow> ''development''
                  | Some m \<Rightarrow> if m = [] then ''development'' else m)\<rparr>"

text \<open>
  Loading the module either throws, and then nothing is served, or reaches \<open>serve\<close>
  with the client made from the key and the port. \<open>!key\<close> holds when the key is
  \<open>undefined\<close> or the empty string.
\<close>

datatype startup = Serving string port_setting

definition start :: "(string \<rightharpoonup> string) \<Rightarrow> thrown + startup" where
  "start process_env =
     (let env = load_env process_env in
      case GOOGLE_API_KEY env of
        None \<Rightarrow> Inl (Error_instance ''GOOGLE_API_KEY is not set in the environment variables'')
      | Some key \<Rightarrow>
          if key = []
          then Inl (Error_instance ''GOOGLE_API_KEY is not set in the environment variables'')
          else Inr (Serving key (PORT env)))"

section \<open>Names used in the statements\<close>

text \<open>
  The strings a regular expression stands for, to state what the matcher decides.
\<close>

inductive_set star :: "string set \<Rightarrow> string set" for A :: "string set" where
  star_empty: "[] \<in> star A"
| star_more: "u \<in> A \<Longrightarrow> v \<in> star A \<Longrightarrow> u @ v \<in> star A"

fun lang :: "regex \<Rightarrow> string set" where
  "lang Zero = {}"
| "lang One = {[]}"
| "lang (Lit c) = {[c]}"
| "lang Digit = {[c] | c. is_digit c}"
| "lang (Alt r s) = lang r \<union> lang s"
| "lang (Seq r s) = {u @ v | u v. u \<in> lang r \<and> v \<in> lang s}"
| "lang (Star r) = star (lang r)"

text \<open>
  The two inner object schemas of the specification schema, as written there.
\<close>

definition info_schema :: zschema where
  "info_schema = ZObject [(''title'', ZString []), (''version'', ZString [])]"

definition components_schema :: zschema where
  "components_schema = ZOptional (ZObject [(''schemas'', ZOptional (ZRecord ZAny))])"

text \<open>An object without its property named \<open>__proto__\<close>.\<close>

definition strip_proto :: "(string \<times> json) list \<Rightarrow> (string \<times> json) list" where
  "strip_proto kvs = filter (\<lambda>kv. fst kv \<noteq> ''__proto__'') kvs"

text \<open>
  The condition the schema puts on \<open>components\<close>: absent, or an object whose \<open>schemas\<close>
  is absent or an object.
\<close>

definition components_ok :: "json option \<Rightarrow> bool" where
  "components_ok c =
     (case c of
        None \<Rightarrow> True
      | Some (JObj ckvs) \<Rightarrow>
          (case map_of ckvs ''schemas'' of None \<Rightarrow> True | Some (JObj ss) \<Rightarrow> True | _ \<Rightarrow> False)
      | _ \<Rightarrow> False)"

text \<open>
  The document cut down to the fields the schema declares, in the schema's order, each
  with the value the document has for it. This is the statement's description of a
  validated value, to be compared with what the parser returns.
\<close>

fun without_proto :: "json \<Rightarrow> json" where
  "without_proto (JObj kvs) = JObj (strip_proto kvs)"
| "without_proto v = v"

definition declared_fields :: "json \<Rightarrow> json" where
  "declared_fields body = object_literal
     [(''openapi'', get_prop body ''openapi''),
      (''info'', map_option
         (\<lambda>info. object_literal [(''title'', get_prop info ''title''),
                                  (''version'', get_prop info ''version'')])
         (get_prop body ''info'')),
      (''paths'', map_option without_proto (get_prop body ''paths'')),
      (''components'', map_option
         (\<lambda>c. object_literal [(''schemas'', map_option without_proto (get_prop c ''schemas''))])
         (get_prop body ''components''))]"

text \<open>
  Example documents: the minimal valid one, one of version 2.0, one of version 4.0.0, one
  whose \<open>components\<close> is a number, one whose \<open>info\<close> has a description, and one with an
  empty title and version.
\<close>

definition doc_minimal :: json where
  "doc_minimal = JObj
     [(''openapi'', JStr ''3.0.0''),
      (''info'', JObj [(''title'', JStr ''Blog''), (''version'', JStr ''1.0.0'')]),
      (''paths'', JObj [])]"

definition doc_swagger2 :: json where
  "doc_swagger2 = JObj
     [(''openapi'', JStr ''2.0''),
      (''info'', JObj [(''title'', JStr ''X''), (''version'', JStr ''1'')]),
      (''paths'', JObj [])]"

definition doc_bad_components :: json where
  "doc_bad_components = JObj
     [(''openapi'', JStr ''3.0.0''),
      (''info'', JObj [(''title'', JStr ''Blog''), (''version'', JStr ''1.0.0'')]),
      (''paths'', JObj []),
      (''components'', JNum (Finite ''5''))]"

definition doc_described :: json where
  "doc_described = JObj
     [(''openapi'', JStr ''3.0.0''),
      (''info'', JObj [(''title'', JStr ''Blog''), (''version'', JStr ''1.0.0''),
                       (''description'', JStr ''A blog'')]),
      (''paths'', JObj [])]"

definition doc_untitled :: json where
  "doc_untitled = JObj
     [(''openapi'', JStr ''3.1.0''),
      (''info'', JObj [(''title'', JStr []), (''version'', JStr [])]),
      (''paths'', JObj [])]"

definition doc_version4 :: json where
  "doc_version4 = JObj
     [(''openapi'', JStr ''4.0.0''),
      (''info'', JObj [(''title'', JStr ''X''), (''version'', JStr ''1'')]),
      (''paths'', JObj [])]"

text \<open>
  Example surroundings of a request: a generation that returns two files, one that
  fails with an authentication error, and the request made of a document and a
  generation.
\<close>

definition files_two :: "(string \<times> string) list" where
  "files_two = [(''package.json'', ''{}''), (''src/index.ts'', ''// entry'')]"

definition generator_two :: "generate_args \<Rightarrow> thrown + (string \<times> string) list" where
  "generator_two args = Inr files_two"

definition generator_auth_failure :: "generate_args \<Rightarrow> thrown + (string \<times> string) list" where
  "generator_auth_failure args = Inl (Error_instance ''API key not valid'')"

definition request_of :: "json \<Rightarrow> (generate_args \<Rightarrow> thrown + (string \<times> string) list) \<Rightarrow> request_env" where
  "request_of document generator = \<lparr>req_json = Inr document, generateObject = generator, now = 1762166400123\<rparr>"

text \<open>
  The date-time format the clock's text is read back in: four digits of year, or a
  sign and six digits that are not minus zero, then \<open>-MM-DDTHH:mm:ss.sssZ\<close> with the
  month in 1..12, the day in 1..31, the hour in 0..23, minute and second in 0..59.
\<close>

definition digit_value :: "char \<Rightarrow> nat" where
  "digit_value c = of_char c - 48"

definition value_of :: "string \<Rightarrow> nat" where
  "value_of s = foldl (\<lambda>n c. 10 * n + digit_value c) 0 s"

definition field :: "nat \<Rightarrow> nat \<Rightarrow> nat \<Rightarrow> nat \<Rightarrow> string \<Rightarrow> bool" where
  "field off w lo hi s =
     (let f = take w (drop off s)
      in length f = w \<and> list_all is_digit f \<and> lo \<le> value_of f \<and> value_of f \<le> hi)"

definition date_time_tail :: "string \<Rightarrow> bool" where
  "date_time_tail s =
     (length s = 20
      \<and> s ! 0 = CHR ''-'' \<and> field 1 2 1 12 s
      \<and> s ! 3 = CHR ''-'' \<and> field 4 2 1 31 s
      \<and> s ! 6 = CHR ''T'' \<and> field 7 2 0 23 s
      \<and> s ! 9 = CHR '':'' \<and> field 10 2 0 59 s
      \<and> s ! 12 = CHR '':'' \<and> field 13 2 0 59 s
      \<and> s ! 15 = CHR ''.'' \<and> field 16 3 0 999 s
      \<and> s ! 19 = CHR ''Z'')"

definition is_date_time :: "string \<Rightarrow> bool" where
  "is_date_time s =
     (case s of
        [] \<Rightarrow> False
      | c # rest \<Rightarrow>
          if c = CHR ''+'' \<or> c = CHR ''-''
          then field 0 6 0 999999 rest
               \<and> \<not> (c = CHR ''-'' \<and> value_of (take 6 rest) = 0)
               \<and> date_time_tail (drop 6 rest)
          else field 0 4 0 9999 s \<and> date_time_tail (drop 4 s))"

text \<open>The part of the clock's text after the year.\<close>

definition iso_tail :: "int \<Rightarrow> string" where
  "iso_tail t =
     ''-'' @ pad 2 (MonthFromTime t + 1) @ ''-'' @ pad 2 (DateFromTime t)
      @ ''T'' @ pad 2 (HourFromTime t) @ '':'' @ pad 2 (MinFromTime t)
      @ '':'' @ pad 2 (SecFromTime t) @ ''.'' @ pad 3 (msFromTime t) @ ''Z''"

section \<open>The version pattern\<close>

text \<open>
  The matcher decides membership in the language of the expression, and the version
  pattern stands for \<open>3.\<close>, digits, a dot, digits.
\<close>

lemma nullable_lang: "nullable r \<longleftrightarrow> [] \<in> lang r"
  by (induction r) (auto intro: star_empty)

lemma star_cons_D:
  "x \<in> star A \<Longrightarrow> x = c # w \<Longrightarrow> \<exists>u v. w = u @ v \<and> c # u \<in> A \<and> v \<in> star A"
proof (induction x rule: star.induct)
  case star_empty
  then show ?case by simp
next
  case (star_more u v)
  show ?case
  proof (cases u)
    case Nil
    with star_more show ?thesis by simp
  next
    case (Cons d u')
    with star_more.prems have "d = c" "w = u' @ v" by simp_all
    with star_more.hyps Cons show ?thesis by blast
  qed
qed

lemma star_cons:
  "c # w \<in> star A \<longleftrightarrow> (\<exists>u v. w = u @ v \<and> c # u \<in> A \<and> v \<in> star A)"
proof
  assume "c # w \<in> star A"
  from star_cons_D [OF this]
  show "\<exists>u v. w = u @ v \<and> c # u \<in> A \<and> v \<in> star A" by simp
next
  assume "\<exists>u v. w = u @ v \<and> c # u \<in> A \<and> v \<in> star A"
  then obtain u v where "w = u @ v" "c # u \<in> A" "v \<in> star A" by blast
  with star_more [of "c # u" A v] show "c # w \<in> star A" by simp
qed

lemma lang_SeqI: "u \<in> lang r \<Longrightarrow> v \<in> lang s \<Longrightarrow> u @ v \<in> lang (Seq r s)"
  by auto

lemma deriv_lang: "w \<in> lang (deriv c r) \<longleftrightarrow> c # w \<in> lang r"
proof (induction r arbitrary: w)
  case (Seq r s)
  show ?case
  proof
    assume "w \<in> lang (deriv c (Seq r s))"
    then consider (left) u v where "w = u @ v" "u \<in> lang (deriv c r)" "v \<in> lang s"
      | (right) "nullable r" "w \<in> lang (deriv c s)"
      by (auto split: if_splits)
    then show "c # w \<in> lang (Seq r s)"
    proof cases
      case left
      with Seq.IH(1) [of u] have "c # u \<in> lang r" by simp
      from lang_SeqI [OF this left(3)] left(1) show ?thesis by simp
    next
      case right
      with Seq.IH(2) [of w] have "[] \<in> lang r" "c # w \<in> lang s"
        by (simp_all add: nullable_lang)
      from lang_SeqI [OF this] show ?thesis by simp
    qed
  next
    assume "c # w \<in> lang (Seq r s)"
    then obtain u v where uv: "c # w = u @ v" "u \<in> lang r" "v \<in> lang s" by auto
    show "w \<in> lang (deriv c (Seq r s))"
    proof (cases u)
      case Nil
      with uv Seq.IH(2) [of w] have "nullable r" "w \<in> lang (deriv c s)"
        by (simp_all add: nullable_lang)
      then show ?thesis by simp
    next
      case (Cons d u')
      with uv have "d = c" "w = u' @ v" by simp_all
      with uv Cons Seq.IH(1) [of u'] have "u' \<in> lang (deriv c r)" by simp
      from lang_SeqI [OF this uv(3)] \<open>w = u' @ v\<close> show ?thesis by simp
    qed
  qed
next
  case (Star r)
  then show ?case by (auto simp: star_cons)
qed auto

lemma regex_test_lang: "regex_test r s \<longleftrightarrow> s \<in> lang r"
  by (induction s arbitrary: r) (simp_all add: nullable_lang deriv_lang)

lemma star_digits: "a \<in> star (lang Digit) \<longleftrightarrow> list_all is_digit a"
proof
  show "a \<in> star (lang Digit) \<Longrightarrow> list_all is_digit a"
    by (induction a rule: star.induct) auto
  show "list_all is_digit a \<Longrightarrow> a \<in> star (lang Digit)"
  proof (induction a)
    case Nil
    then show ?case by (simp add: star_empty)
  next
    case (Cons c a)
    then have "[c] \<in> lang Digit" "a \<in> star (lang Digit)" by simp_all
    from star_more [OF this] show ?case by simp
  qed
qed

lemma plus_digits: "a \<in> lang (Plus Digit) \<longleftrightarrow> a \<noteq> [] \<and> list_all is_digit a"
proof
  assume "a \<in> lang (Plus Digit)"
  then obtain c v where "a = c # v" "is_digit c" "v \<in> star (lang Digit)"
    by (auto simp: Plus_def)
  with star_digits [of v] show "a \<noteq> [] \<and> list_all is_digit a" by simp
next
  assume "a \<noteq> [] \<and> list_all is_digit a"
  then obtain c v where a: "a = c # v" and "is_digit c" "list_all is_digit v"
    by (cases a) simp_all
  with star_digits [of v] have "[c] \<in> lang Digit" "v \<in> lang (Star Digit)" by simp_all
  from lang_SeqI [OF this] a show "a \<in> lang (Plus Digit)" by (simp add: Plus_def)
qed

lemma version_pattern_matches:
  "regex_test openapi_version_pattern s \<longleftrightarrow>
     (\<exists>a b. s = ''3.'' @ a @ ''.'' @ b
        \<and> a \<noteq> [] \<and> list_all is_digit a \<and> b \<noteq> [] \<and> list_all is_digit b)"
proof -
  have "s \<in> lang openapi_version_pattern \<longleftrightarrow>
          (\<exists>a b. s = ''3.'' @ a @ ''.'' @ b \<and> a \<in> lang (Plus Digit) \<and> b \<in> lang (Plus Digit))"
    unfolding openapi_version_pattern_def by (simp del: lang.simps(4)) blast
  then show ?thesis by (simp add: regex_test_lang plus_digits)
qed

section \<open>The parser on the specification schema\<close>

lemma record_any_issues:
  "concat (map (issues_of \<circ> snd) (map (\<lambda>kv. (fst kv, Inr (Some (snd kv)))) kvs)) = []"
  by (induction kvs) simp_all

lemma record_any_props:
  "defined_props (map (\<lambda>kv. (fst kv, Inr (Some (snd kv)))) kvs) = strip_proto kvs"
  by (induction kvs) (auto simp: strip_proto_def)

lemma zparse_record_any:
  "zparse (ZRecord ZAny) p (Some (JObj kvs)) = Inr (Some (JObj (strip_proto kvs)))"
proof -
  have "zparse (ZRecord ZAny) p (Some (JObj kvs)) =
          mergeObject (map (\<lambda>kv. (fst kv, Inr (Some (snd kv)))) kvs)"
    by simp
  then show ?thesis
    unfolding mergeObject_def record_any_issues record_any_props by simp
qed

lemma zparse_record_any_other:
  "(\<forall>kvs. input \<noteq> Some (JObj kvs)) \<Longrightarrow>
   zparse (ZRecord ZAny) p input = Inl [invalid_type_issue ''object'' input p]"
  by (auto split: option.splits json.splits)

lemma zparse_plain_string:
  "zparse (ZString []) p (Some (JStr s)) = Inr (Some (JStr s))"
  by (simp add: string_checks_def)

lemma zparse_string_other:
  "(\<forall>s. input \<noteq> Some (JStr s)) \<Longrightarrow>
   zparse (ZString checks) p input = Inl [invalid_type_issue ''string'' input p]"
  by (auto split: option.splits json.splits)

lemma zparse_version:
  "zparse (ZString [(re, msg)]) p (Some (JStr s)) =
     (if regex_test re s then Inr (Some (JStr s))
      else Inl [\<lparr>code = invalid_string, path = p, message = msg\<rparr>])"
  by (simp add: string_checks_def)

lemma zparse_never_undefined: "zparse s p (Some v) \<noteq> Inr None"
proof (induction s arbitrary: p v)
  case (ZString x)
  then show ?case by (auto split: json.splits list.splits)
next
  case ZAny
  then show ?case by simp
next
  case (ZRecord s)
  then show ?case by (auto simp: mergeObject_def split: json.splits list.splits)
next
  case (ZObject x)
  then show ?case by (auto simp: mergeObject_def split: json.splits list.splits)
next
  case (ZOptional s)
  then show ?case by simp
qed


lemma mergeObject_Inr:
  "mergeObject pairs = Inr x \<longleftrightarrow>
     concat (map (issues_of \<circ> snd) pairs) = [] \<and> x = Some (JObj (defined_props pairs))"
  by (cases "concat (map (issues_of \<circ> snd) pairs)")
     (auto simp: mergeObject_def simp del: concat_eq_Nil_conv)

lemma mergeObject_Inl_nonempty: "mergeObject pairs \<noteq> Inl []"
  by (simp add: mergeObject_def split: list.splits)

lemma zparse_Inl_nonempty: "zparse s p input \<noteq> Inl []"
proof (induction s arbitrary: p input)
  case (ZString x)
  then show ?case by (auto split: option.splits json.splits list.splits)
next
  case ZAny
  then show ?case by simp
next
  case (ZRecord s)
  then show ?case by (auto simp: mergeObject_Inl_nonempty split: option.splits json.splits)
next
  case (ZObject x)
  then show ?case by (auto simp: mergeObject_Inl_nonempty split: option.splits json.splits)
next
  case (ZOptional s)
  then show ?case by (auto split: option.splits)
qed

lemma issues_of_zparse: "issues_of (zparse s p input) = [] \<longleftrightarrow> \<not> isl (zparse s p input)"
  using zparse_Inl_nonempty [of s p input] by (cases "zparse s p input") auto

lemma version_3_0_0: "regex_test openapi_version_pattern ''3.0.0''"
  by (simp add: openapi_version_pattern_def Plus_def is_digit_def)

lemma version_2_0: "\<not> regex_test openapi_version_pattern ''2.0''"
  by (simp add: openapi_version_pattern_def Plus_def is_digit_def)

lemma version_4_0_0: "\<not> regex_test openapi_version_pattern ''4.0.0''"
  by (simp add: openapi_version_pattern_def Plus_def is_digit_def)

lemma zparse_top:
  "zparse openApiSchema [] (Some (JObj kvs)) =
     mergeObject
       [(''openapi'', zparse (ZString [(openapi_version_pattern, ''Must be OpenAPI 3.x.x'')])
                        [''openapi''] (map_of kvs ''openapi'')),
        (''info'', zparse info_schema [''info''] (map_of kvs ''info'')),
        (''paths'', zparse (ZRecord ZAny) [''paths''] (map_of kvs ''paths'')),
        (''components'', zparse components_schema [''components''] (map_of kvs ''components''))]"
  unfolding openApiSchema_def info_schema_def components_schema_def
  by (simp only: zparse.simps option.case json.case list.map fst_conv snd_conv append_Nil)

lemma zparse_info:
  "zparse info_schema p (Some (JObj ikvs)) =
     mergeObject
       [(''title'', zparse (ZString []) (p @ [''title'']) (map_of ikvs ''title'')),
        (''version'', zparse (ZString []) (p @ [''version'']) (map_of ikvs ''version''))]"
  unfolding info_schema_def
  by (simp only: zparse.simps option.case json.case list.map fst_conv snd_conv)

declare zparse.simps [simp del]

lemma zparse_string_Inr:
  "zparse (ZString checks) p input = Inr r \<longleftrightarrow>
     (\<exists>s. input = Some (JStr s) \<and> string_checks checks p s = [] \<and> r = Some (JStr s))"
  by (auto simp: zparse.simps split: option.splits json.splits list.splits)

lemma zparse_record_any_Inr:
  "zparse (ZRecord ZAny) p input = Inr r \<longleftrightarrow>
     (\<exists>kvs. input = Some (JObj kvs) \<and> r = Some (JObj (strip_proto kvs)))"
proof (cases "\<exists>kvs. input = Some (JObj kvs)")
  case True
  then show ?thesis using zparse_record_any by auto
next
  case False
  then show ?thesis using zparse_record_any_other [of input p] by auto
qed

lemma merge2:
  "mergeObject [(k1, zparse s1 p1 i1), (k2, zparse s2 p2 i2)] = Inr r \<longleftrightarrow>
     (\<exists>v1 v2. zparse s1 p1 i1 = Inr v1 \<and> zparse s2 p2 i2 = Inr v2
        \<and> r = Some (JObj (defined_props [(k1, Inr v1), (k2, Inr v2)])))"
  unfolding mergeObject_Inr
  by (cases "zparse s1 p1 i1"; cases "zparse s2 p2 i2") (auto simp: zparse_Inl_nonempty)

lemma zparse_info_Inr:
  "zparse info_schema p input = Inr r \<longleftrightarrow>
     (\<exists>ikvs t v. input = Some (JObj ikvs) \<and> map_of ikvs ''title'' = Some (JStr t)
        \<and> map_of ikvs ''version'' = Some (JStr v)
        \<and> r = Some (JObj [(''title'', JStr t), (''version'', JStr v)]))"
proof (cases "\<exists>ikvs. input = Some (JObj ikvs)")
  case True
  then obtain ikvs where i: "input = Some (JObj ikvs)" by blast
  show ?thesis
    unfolding i zparse_info merge2 zparse_string_Inr
    by (auto simp: string_checks_def)
next
  case False
  then have "zparse info_schema p input = Inl [invalid_type_issue ''object'' input p]"
    unfolding info_schema_def by (auto simp: zparse.simps split: option.splits json.splits)
  with False show ?thesis by auto
qed


lemma zparse_optional_record_Inr:
  "zparse (ZOptional (ZRecord ZAny)) p input = Inr r \<longleftrightarrow>
     (input = None \<and> r = None) \<or>
     (\<exists>ss. input = Some (JObj ss) \<and> r = Some (JObj (strip_proto ss)))"
  by (cases input) (auto simp: zparse.simps(3) zparse_record_any_Inr)

lemma merge1:
  "mergeObject [(k1, zparse s1 p1 i1)] = Inr r \<longleftrightarrow>
     (\<exists>v1. zparse s1 p1 i1 = Inr v1 \<and> r = Some (JObj (defined_props [(k1, Inr v1)])))"
  unfolding mergeObject_Inr
  by (cases "zparse s1 p1 i1") (auto simp: zparse_Inl_nonempty)

lemma zparse_components_Inr:
  "zparse components_schema p input = Inr r \<longleftrightarrow>
     (input = None \<and> r = None) \<or>
     (\<exists>ckvs. input = Some (JObj ckvs) \<and>
        ((map_of ckvs ''schemas'' = None \<and> r = Some (JObj [])) \<or>
         (\<exists>ss. map_of ckvs ''schemas'' = Some (JObj ss)
            \<and> r = Some (JObj [(''schemas'', JObj (strip_proto ss))]))))"
proof (cases input)
  case None
  then show ?thesis by (auto simp: components_schema_def zparse.simps)
next
  case (Some v)
  show ?thesis
  proof (cases "\<exists>ckvs. v = JObj ckvs")
    case True
    then obtain ckvs where v: "v = JObj ckvs" by blast
    have "zparse components_schema p input =
            mergeObject [(''schemas'', zparse (ZOptional (ZRecord ZAny)) (p @ [''schemas''])
                                         (map_of ckvs ''schemas''))]"
      unfolding components_schema_def Some v
      by (simp only: zparse.simps option.case json.case list.map fst_conv snd_conv)
    then show ?thesis
      using Some v by (auto simp: merge1 zparse_optional_record_Inr)
  next
    case False
    then have "zparse components_schema p input = Inl [invalid_type_issue ''object'' input p]"
      unfolding components_schema_def Some by (auto simp: zparse.simps split: json.splits)
    with False Some show ?thesis by auto
  qed
qed

lemma merge4:
  "mergeObject [(k1, zparse s1 p1 i1), (k2, zparse s2 p2 i2),
                (k3, zparse s3 p3 i3), (k4, zparse s4 p4 i4)] = Inr r \<longleftrightarrow>
     (\<exists>v1 v2 v3 v4. zparse s1 p1 i1 = Inr v1 \<and> zparse s2 p2 i2 = Inr v2
        \<and> zparse s3 p3 i3 = Inr v3 \<and> zparse s4 p4 i4 = Inr v4
        \<and> r = Some (JObj (defined_props [(k1, Inr v1), (k2, Inr v2), (k3, Inr v3), (k4, Inr v4)])))"
  unfolding mergeObject_Inr
  by (cases "zparse s1 p1 i1"; cases "zparse s2 p2 i2"; cases "zparse s3 p3 i3";
      cases "zparse s4 p4 i4") (auto simp: zparse_Inl_nonempty)

lemma safeParse_Inr:
  "safeParse openApiSchema body = Inr spec \<longleftrightarrow> zparse openApiSchema [] (Some body) = Inr (Some spec)"
  using zparse_never_undefined [of openApiSchema "[]" body]
  by (auto simp: safeParse_def split: sum.splits option.splits)

lemma safeParse_not_object:
  "(\<forall>kvs. body \<noteq> JObj kvs) \<Longrightarrow>
   safeParse openApiSchema body = Inl [invalid_type_issue ''object'' (Some body) []]"
  by (auto simp: safeParse_def openApiSchema_def zparse.simps split: json.splits)

lemma accepted_iff:
  "safeParse openApiSchema body = Inr spec \<longleftrightarrow>
     (\<exists>kvs ov ikvs t v ps.
        body = JObj kvs
        \<and> map_of kvs ''openapi'' = Some (JStr ov) \<and> regex_test openapi_version_pattern ov
        \<and> map_of kvs ''info'' = Some (JObj ikvs)
        \<and> map_of ikvs ''title'' = Some (JStr t) \<and> map_of ikvs ''version'' = Some (JStr v)
        \<and> map_of kvs ''paths'' = Some (JObj ps)
        \<and> components_ok (map_of kvs ''components'')
        \<and> spec = declared_fields body)"
proof (cases "\<exists>kvs. body = JObj kvs")
  case False
  then show ?thesis using safeParse_not_object [of body] by auto
next
  case True
  then obtain kvs where b: "body = JObj kvs" by blast
  show ?thesis
    unfolding safeParse_Inr b zparse_top merge4 zparse_string_Inr zparse_info_Inr
      zparse_record_any_Inr zparse_components_Inr
    by (auto simp: string_checks_def components_ok_def declared_fields_def get_prop_def
        split: option.splits json.splits)
qed


lemma openapi_issue:
  assumes "\<forall>s. input = Some (JStr s) \<longrightarrow> \<not> regex_test re s"
  shows "\<exists>i. zparse (ZString [(re, msg)]) p input = Inl [i] \<and> path i = p"
proof (cases "\<exists>s. input = Some (JStr s)")
  case True
  with assms show ?thesis by (auto simp: zparse_version)
next
  case False
  then show ?thesis
    using zparse_string_other [of input "[(re, msg)]" p] by (simp add: invalid_type_issue_def)
qed

lemma mergeObject_first_Inl:
  "mergeObject ((k, Inl (i # is)) # rest) = Inl (i # is @ concat (map (issues_of \<circ> snd) rest))"
  by (simp add: mergeObject_def)

lemma rejected_openapi:
  assumes "\<forall>s. map_of kvs ''openapi'' = Some (JStr s) \<longrightarrow> \<not> regex_test openapi_version_pattern s"
  shows "\<exists>i others. safeParse openApiSchema (JObj kvs) = Inl (i # others) \<and> path i = [''openapi'']"
proof -
  from openapi_issue [OF assms]
  obtain i where i: "zparse (ZString [(openapi_version_pattern, ''Must be OpenAPI 3.x.x'')])
                       [''openapi''] (map_of kvs ''openapi'') = Inl [i]"
    and p: "path i = [''openapi'']" by blast
  have "\<exists>others. zparse openApiSchema [] (Some (JObj kvs)) = Inl (i # others)"
    unfolding zparse_top i mergeObject_first_Inl by simp
  then show ?thesis using p by (auto simp: safeParse_def)
qed

lemma Object_keys_set_prop:
  "Object_keys (set_prop k v node) =
     (if k \<in> set (Object_keys node) then Object_keys node else Object_keys node @ [k])"
  by (induction node) (force simp: Object_keys_def)+

lemma keys_set_prop: "set (Object_keys (set_prop k v node)) = insert k (set (Object_keys node))"
  unfolding Object_keys_set_prop by auto

lemma keys_push_error: "set (Object_keys node) \<subseteq> set (Object_keys (push_error msg node))"
  by (auto simp: push_error_def keys_set_prop split: option.splits json.splits)

lemma keys_add_issue: "set (Object_keys node) \<subseteq> set (Object_keys (add_issue p msg node))"
proof (cases p)
  case Nil
  then show ?thesis using keys_push_error by simp
next
  case (Cons el rest)
  then show ?thesis by (auto simp: keys_set_prop Let_def)
qed

lemma keys_add_issue_head: "el \<in> set (Object_keys (add_issue (el # rest) msg node))"
  by (simp add: keys_set_prop Let_def)

lemma keys_foldl_add_issue:
  "k \<in> set (Object_keys node) \<Longrightarrow>
   k \<in> set (Object_keys (foldl (\<lambda>node i. add_issue (path i) (message i) node) node issues))"
proof (induction issues arbitrary: node)
  case Nil
  then show ?case by simp
next
  case (Cons i issues)
  from Cons.prems keys_add_issue [of node "path i" "message i"]
  have "k \<in> set (Object_keys (add_issue (path i) (message i) node))" by blast
  from Cons.IH [OF this] show ?case by simp
qed

lemma format_names_first_field:
  assumes "path i = el # rest"
  shows "has_key (format (i # others)) el"
proof -
  have "el \<in> set (Object_keys (add_issue (path i) (message i) empty_node))"
    unfolding assms by (rule keys_add_issue_head)
  from keys_foldl_add_issue [OF this, of others]
  show ?thesis by (simp add: format_def has_key_def)
qed

lemma accepted_when:
  assumes "get_prop body ''openapi'' = Some (JStr ov)"
      and "regex_test openapi_version_pattern ov"
      and "get_prop body ''info'' = Some info"
      and "get_prop info ''title'' = Some (JStr t)"
      and "get_prop info ''version'' = Some (JStr v)"
      and "get_prop body ''paths'' = Some (JObj ps)"
      and "components_ok (get_prop body ''components'')"
  shows "safeParse openApiSchema body = Inr (declared_fields body)"
proof -
  from assms(1) obtain kvs where b: "body = JObj kvs"
    by (cases body) (auto simp: get_prop_def)
  from assms(4) obtain ikvs where i: "info = JObj ikvs"
    by (cases info) (auto simp: get_prop_def)
  show ?thesis
    unfolding accepted_iff using assms by (auto simp: b i get_prop_def)
qed

lemma version_3_1_0: "regex_test openapi_version_pattern ''3.1.0''"
  by (simp add: openapi_version_pattern_def Plus_def is_digit_def)


section \<open>What the validator rejects and accepts\<close>

text \<open>
  Claim C2, as amended. For every document that is a JSON object whose \<open>openapi\<close>
  property is absent, is not a string, or is a string that does not match the version
  pattern, the validator rejects the document, one of the issues has the path
  \<open>openapi\<close>, and the formatted error has the property \<open>openapi\<close>.
\<close>

theorem rejected_openapi_names_field:
  assumes "get_prop (JObj kvs) ''openapi'' = None
           \<or> (\<forall>s. get_prop (JObj kvs) ''openapi'' \<noteq> Some (JStr s))
           \<or> (\<exists>s. get_prop (JObj kvs) ''openapi'' = Some (JStr s)
                  \<and> \<not> regex_test openapi_version_pattern s)"
  shows "\<exists>zerr. safeParse openApiSchema (JObj kvs) = Inl zerr
           \<and> (\<exists>i \<in> set zerr. path i = [''openapi''])
           \<and> has_key (format zerr) ''openapi''"
proof -
  from assms
  have "\<forall>s. map_of kvs ''openapi'' = Some (JStr s) \<longrightarrow> \<not> regex_test openapi_version_pattern s"
    by (auto simp: get_prop_def)
  from rejected_openapi [OF this]
  obtain i others where z: "safeParse openApiSchema (JObj kvs) = Inl (i # others)"
    and p: "path i = [''openapi'']" by blast
  from format_names_first_field [OF p, of others] z p show ?thesis by auto
qed

theorem rejected_openapi_names_field_witness:
  "get_prop doc_swagger2 ''openapi'' = Some (JStr ''2.0'')
   \<and> \<not> regex_test openapi_version_pattern ''2.0''
   \<and> has_key (format [\<lparr>code = invalid_string, path = [''openapi''],
                          message = ''Must be OpenAPI 3.x.x''\<rparr>]) ''openapi''
   \<and> get_prop doc_version4 ''openapi'' = Some (JStr ''4.0.0'')
   \<and> \<not> regex_test openapi_version_pattern ''4.0.0''
   \<and> safeParse openApiSchema doc_version4 =
         Inl [\<lparr>code = invalid_string, path = [''openapi''],
               message = ''Must be OpenAPI 3.x.x''\<rparr>]
   \<and> safeParse openApiSchema doc_swagger2 =
         Inl [\<lparr>code = invalid_string, path = [''openapi''],
               message = ''Must be OpenAPI 3.x.x''\<rparr>]"
  using rejected_openapi_names_field
    [of "[(''openapi'', JStr ''2.0''),
          (''info'', JObj [(''title'', JStr ''X''), (''version'', JStr ''1'')]),
          (''paths'', JObj [])]"]
    rejected_openapi_names_field
    [of "[(''openapi'', JStr ''4.0.0''),
          (''info'', JObj [(''title'', JStr ''X''), (''version'', JStr ''1'')]),
          (''paths'', JObj [])]"]
    version_2_0 version_4_0_0
  by (simp add: doc_swagger2_def doc_version4_def get_prop_def safeParse_def openApiSchema_def
      zparse.simps mergeObject_def string_checks_def)

text \<open>
  The claim as stated fails for a document that is not an object: \<open>null\<close> has no
  \<open>openapi\<close> property, it is rejected, and its only issue is at the root, so the
  formatted error has no property \<open>openapi\<close>.
\<close>

theorem non_object_error_names_no_field:
  "get_prop JNull ''openapi'' = None
   \<and> safeParse openApiSchema JNull =
       Inl [\<lparr>code = invalid_type, path = [], message = ''Expected object, received null''\<rparr>]
   \<and> \<not> has_key (format [\<lparr>code = invalid_type, path = [],
                            message = ''Expected object, received null''\<rparr>]) ''openapi''"
  by (simp add: get_prop_def safeParse_def openApiSchema_def zparse.simps invalid_type_issue_def
      format_def has_key_def empty_node_def push_error_def Object_keys_def)

text \<open>
  Claim C3, as amended. For every document with \<open>openapi\<close> equal to \<open>3.0.0\<close>, an
  \<open>info\<close> whose \<open>title\<close> and \<open>version\<close> are strings, a \<open>paths\<close> that is an object,
  the empty one included, and a \<open>components\<close> that is absent or an object whose
  \<open>schemas\<close> is absent or an object, the validator accepts the document.
\<close>

theorem minimal_document_accepted:
  assumes "get_prop body ''openapi'' = Some (JStr ''3.0.0'')"
      and "get_prop body ''info'' = Some info"
      and "get_prop info ''title'' = Some (JStr t)"
      and "get_prop info ''version'' = Some (JStr v)"
      and "get_prop body ''paths'' = Some (JObj ps)"
      and "components_ok (get_prop body ''components'')"
  shows "\<exists>spec. safeParse openApiSchema body = Inr spec"
  using accepted_when [OF assms(1) version_3_0_0 assms(2-6)] by blast

theorem minimal_document_accepted_witness:
  "get_prop doc_minimal ''openapi'' = Some (JStr ''3.0.0'')
   \<and> get_prop doc_minimal ''info'' = Some (JObj [(''title'', JStr ''Blog''), (''version'', JStr ''1.0.0'')])
   \<and> get_prop doc_minimal ''paths'' = Some (JObj [])
   \<and> components_ok (get_prop doc_minimal ''components'')
   \<and> (\<exists>spec. safeParse openApiSchema doc_minimal = Inr spec)"
  using minimal_document_accepted [of doc_minimal "JObj [(''title'', JStr ''Blog''), (''version'', JStr ''1.0.0'')]"
      "''Blog''" "''1.0.0''" "[]"]
  by (simp add: doc_minimal_def get_prop_def components_ok_def)

text \<open>
  The claim as stated fails when \<open>components\<close> is present and is not an object: the
  document has all the claim asks for and is rejected.
\<close>

theorem bad_components_rejected:
  "get_prop doc_bad_components ''openapi'' = Some (JStr ''3.0.0'')
   \<and> get_prop doc_bad_components ''info'' =
       Some (JObj [(''title'', JStr ''Blog''), (''version'', JStr ''1.0.0'')])
   \<and> get_prop doc_bad_components ''paths'' = Some (JObj [])
   \<and> safeParse openApiSchema doc_bad_components =
       Inl [\<lparr>code = invalid_type, path = [''components''],
             message = ''Expected object, received number''\<rparr>]"
  using version_3_0_0
  by (simp add: doc_bad_components_def get_prop_def safeParse_def openApiSchema_def
      zparse.simps mergeObject_def string_checks_def invalid_type_issue_def)

text \<open>
  Claim C10. The title and the version are only checked to be strings: a document whose
  title or version is the empty string, and which meets the other conditions of the
  schema, is accepted.
\<close>

theorem empty_title_version_accepted:
  assumes "get_prop body ''openapi'' = Some (JStr ov)"
      and "regex_test openapi_version_pattern ov"
      and "get_prop body ''info'' = Some info"
      and "get_prop info ''title'' = Some (JStr t)"
      and "get_prop info ''version'' = Some (JStr v)"
      and "t = [] \<or> v = []"
      and "get_prop body ''paths'' = Some (JObj ps)"
      and "components_ok (get_prop body ''components'')"
  shows "\<exists>spec. safeParse openApiSchema body = Inr spec"
  using accepted_when [OF assms(1-5) assms(7,8)] by blast

theorem empty_title_version_accepted_witness:
  "get_prop doc_untitled ''openapi'' = Some (JStr ''3.1.0'')
   \<and> regex_test openapi_version_pattern ''3.1.0''
   \<and> get_prop doc_untitled ''info'' = Some (JObj [(''title'', JStr []), (''version'', JStr [])])
   \<and> get_prop doc_untitled ''paths'' = Some (JObj [])
   \<and> components_ok (get_prop doc_untitled ''components'')
   \<and> (\<exists>spec. safeParse openApiSchema doc_untitled = Inr spec)"
  using empty_title_version_accepted [of doc_untitled "''3.1.0''" "JObj [(''title'', JStr []), (''version'', JStr [])]"
      "[]" "[]" "[]"] version_3_1_0
  by (simp add: doc_untitled_def get_prop_def components_ok_def)

section \<open>The handler's paths\<close>

lemma accepted_members:
  assumes "safeParse openApiSchema body = Inr spec"
  shows "\<exists>t v. member (Some spec) ''info'' = Inr (Some (JObj [(''title'', JStr t), (''version'', JStr v)]))"
  using assms unfolding accepted_iff
  by (auto simp: declared_fields_def get_prop_def)

lemma handler_rejected:
  assumes "req_json rq = Inr body" and "safeParse openApiSchema body = Inl zerr"
  shows "generate_handler googleClient rq =
           (\<lparr>status = 400,
             payload = JObj [(''error'', JStr ''Invalid OpenAPI specification''),
                             (''details'', format zerr)]\<rparr>, [])"
  using assms by (simp add: generate_handler_def generate_try_def)

lemma handler_success:
  assumes "req_json rq = Inr body" and "safeParse openApiSchema body = Inr spec"
      and "generateObject rq (generation_call googleClient spec) = Inr generatedFiles"
  shows "\<exists>t v. generate_handler googleClient rq =
           (success_response (Some (JStr t)) (Some (JStr v)) (now rq) generatedFiles,
            [generation_call googleClient spec])"
proof -
  from accepted_members [OF assms(2)] obtain t v where
    m: "member (Some spec) ''info'' = Inr (Some (JObj [(''title'', JStr t), (''version'', JStr v)]))"
    by blast
  have "generate_handler googleClient rq =
           (success_response (Some (JStr t)) (Some (JStr v)) (now rq) generatedFiles,
            [generation_call googleClient spec])"
    using assms m by (simp add: generate_handler_def generate_try_def)
  then show ?thesis by blast
qed

lemma handler_generation_failed:
  assumes "req_json rq = Inr body" and "safeParse openApiSchema body = Inr spec"
      and "generateObject rq (generation_call googleClient spec) = Inl e"
  shows "generate_handler googleClient rq =
           (generate_catch e (now rq), [generation_call googleClient spec])"
  using assms by (simp add: generate_handler_def generate_try_def)

lemma handler_body_unreadable:
  assumes "req_json rq = Inl e"
  shows "generate_handler googleClient rq = (generate_catch e (now rq), [])"
  using assms by (simp add: generate_handler_def generate_try_def)

lemma catch_shape:
  "status (generate_catch e t) = 500
   \<and> (\<exists>c. get_prop (payload (generate_catch e t)) ''error'' = Some (JStr c))
   \<and> get_prop (payload (generate_catch e t)) ''timestamp'' = Some (JStr (toISOString t))
   \<and> has_key (payload (generate_catch e t)) ''error''
   \<and> has_key (payload (generate_catch e t)) ''timestamp''
   \<and> \<not> has_key (payload (generate_catch e t)) ''details''
   \<and> \<not> has_key (payload (generate_catch e t)) ''files''
   \<and> (has_key (payload (generate_catch e t)) ''message'' \<longleftrightarrow> (\<exists>msg. e = Error_instance msg))"
  by (cases e) (simp_all add: generate_catch_def get_prop_def has_key_def Object_keys_def)

lemma strip_proto_idem: "strip_proto (strip_proto kvs) = strip_proto kvs"
  by (simp add: strip_proto_def)

lemma accepted_value:
  assumes "safeParse openApiSchema body = Inr spec"
  shows "spec = declared_fields body"
  using assms unfolding accepted_iff by blast

lemma declared_fields_explicit:
  assumes "map_of kvs ''openapi'' = Some (JStr ov)"
      and "map_of kvs ''info'' = Some (JObj ikvs)"
      and "map_of ikvs ''title'' = Some (JStr t)"
      and "map_of ikvs ''version'' = Some (JStr v)"
      and "map_of kvs ''paths'' = Some (JObj ps)"
      and "components_ok (map_of kvs ''components'')"
  shows "\<exists>comps. declared_fields (JObj kvs) =
           JObj ([(''openapi'', JStr ov),
                  (''info'', JObj [(''title'', JStr t), (''version'', JStr v)]),
                  (''paths'', JObj (strip_proto ps))] @ comps)
         \<and> (comps = [] \<or> comps = [(''components'', JObj [])]
             \<or> (\<exists>ss. comps = [(''components'', JObj [(''schemas'', JObj (strip_proto ss))])]))"
proof (cases "map_of kvs ''components''")
  case None
  with assms(1-5) show ?thesis
    by (simp add: declared_fields_def get_prop_def)
next
  case (Some c)
  with assms(6) obtain ckvs where c: "c = JObj ckvs"
    by (cases c) (simp_all add: components_ok_def)
  show ?thesis
  proof (cases "map_of ckvs ''schemas''")
    case None
    with assms(1-5) Some c show ?thesis
      by (simp add: declared_fields_def get_prop_def)
  next
    case sch: (Some sv)
    with assms(6) Some c obtain ss where ss: "sv = JObj ss"
      by (cases sv) (simp_all add: components_ok_def)
    with assms(1-5) Some c sch show ?thesis
      by (auto simp: declared_fields_def get_prop_def)
  qed
qed

lemma declared_fields_idem:
  assumes "safeParse openApiSchema body = Inr spec"
  shows "safeParse openApiSchema spec = Inr spec"
proof -
  from assms obtain kvs ov ikvs t v ps where
    b: "body = JObj kvs" and
    o: "map_of kvs ''openapi'' = Some (JStr ov)" and
    r: "regex_test openapi_version_pattern ov" and
    f: "map_of kvs ''info'' = Some (JObj ikvs)"
       "map_of ikvs ''title'' = Some (JStr t)" "map_of ikvs ''version'' = Some (JStr v)"
       "map_of kvs ''paths'' = Some (JObj ps)" and
    c: "components_ok (map_of kvs ''components'')" and
    s: "spec = declared_fields body"
    unfolding accepted_iff by blast
  from declared_fields_explicit [OF o f c] obtain comps where
    e: "spec = JObj ([(''openapi'', JStr ov),
                  (''info'', JObj [(''title'', JStr t), (''version'', JStr v)]),
                  (''paths'', JObj (strip_proto ps))] @ comps)" and
    cs: "comps = [] \<or> comps = [(''components'', JObj [])]
             \<or> (\<exists>ss. comps = [(''components'', JObj [(''schemas'', JObj (strip_proto ss))])])"
    unfolding s b by blast
  have "components_ok (get_prop spec ''components'')"
    using cs unfolding e by (auto simp: get_prop_def components_ok_def)
  then have "safeParse openApiSchema spec = Inr (declared_fields spec)"
    using r unfolding e
    by (intro accepted_when [where ov = ov and t = t and v = v and ps = "strip_proto ps"
          and info = "JObj [(''title'', JStr t), (''version'', JStr v)]"])
       (simp_all add: get_prop_def)
  moreover have "declared_fields spec = spec"
    using cs unfolding e
    by (auto simp: declared_fields_def get_prop_def strip_proto_idem)
  ultimately show ?thesis by simp
qed

lemma parse_doc_minimal: "safeParse openApiSchema doc_minimal = Inr doc_minimal"
  using version_3_0_0
  by (simp add: doc_minimal_def safeParse_def openApiSchema_def zparse.simps mergeObject_def
      string_checks_def)

lemma parse_doc_described: "safeParse openApiSchema doc_described = Inr doc_minimal"
  using version_3_0_0
  by (simp add: doc_minimal_def doc_described_def safeParse_def openApiSchema_def zparse.simps
      mergeObject_def string_checks_def)

lemma parse_doc_swagger2:
  "safeParse openApiSchema doc_swagger2 =
     Inl [\<lparr>code = invalid_string, path = [''openapi''], message = ''Must be OpenAPI 3.x.x''\<rparr>]"
  using version_2_0
  by (simp add: doc_swagger2_def safeParse_def openApiSchema_def zparse.simps mergeObject_def
      string_checks_def)

lemma stringify_doc_minimal:
  "JSON_stringify doc_minimal 2 =
     ''{\<newline>  \"openapi\": \"3.0.0\",\<newline>  \"info\": {\<newline>    \"title\": \"Blog\",\<newline>    \"version\": \"1.0.0\"\<newline>  },\<newline>  \"paths\": {}\<newline>}''"
  by (simp add: doc_minimal_def JSON_stringify_def wrap_def QuoteJSONString_def quote_char_def numeral_2_eq_2)

lemma stringify_doc_described:
  "JSON_stringify doc_described 2 =
     ''{\<newline>  \"openapi\": \"3.0.0\",\<newline>  \"info\": {\<newline>    \"title\": \"Blog\",\<newline>    \"version\": \"1.0.0\",\<newline>    \"description\": \"A blog\"\<newline>  },\<newline>  \"paths\": {}\<newline>}''"
  by (simp add: doc_described_def JSON_stringify_def wrap_def QuoteJSONString_def quote_char_def numeral_2_eq_2)

lemma catch_message:
  "has_key (payload (generate_catch e t)) ''message'' \<longleftrightarrow>
     get_prop (payload (generate_catch e t)) ''error'' = Some (JStr ''Code generation failed'')"
  by (cases e) (simp_all add: generate_catch_def get_prop_def has_key_def Object_keys_def)

lemma handler_swagger2:
  "fst (generate_handler ''key'' (request_of doc_swagger2 generator_two)) =
     \<lparr>status = 400,
      payload = JObj [(''error'', JStr ''Invalid OpenAPI specification''),
                      (''details'', format [\<lparr>code = invalid_string, path = [''openapi''],
                                              message = ''Must be OpenAPI 3.x.x''\<rparr>])]\<rparr>"
  using handler_rejected [of "request_of doc_swagger2 generator_two" doc_swagger2 _ "''key''",
      OF _ parse_doc_swagger2]
  by (simp add: request_of_def)

lemma handler_auth_failure:
  "fst (generate_handler ''key'' (request_of doc_minimal generator_auth_failure)) =
     generate_catch (Error_instance ''API key not valid'') 1762166400123"
  using handler_generation_failed [of "request_of doc_minimal generator_auth_failure" doc_minimal
      doc_minimal "''key''" "Error_instance ''API key not valid''", OF _ parse_doc_minimal]
  by (simp add: request_of_def generator_auth_failure_def)

section \<open>The clock's text is a date-time\<close>

lemma digit_char_cases:
  assumes "k < 10"
  shows "is_digit (''0123456789'' ! k) \<and> digit_value (''0123456789'' ! k) = k"
proof -
  from assms have "k \<in> {0, 1, 2, 3, 4, 5, 6, 7, 8, 9}" by auto
  then show ?thesis by (auto simp: is_digit_def digit_value_def)
qed

lemma digit_char_ok: "is_digit (digit_char n) \<and> digit_value (digit_char n) = n mod 10"
  unfolding digit_char_def using digit_char_cases [of "n mod 10"] by simp

lemma value_of_snoc: "value_of (s @ [c]) = 10 * value_of s + digit_value c"
  by (simp add: value_of_def)

lemma decimal_digits: "list_all is_digit (decimal n)"
proof (induction n rule: decimal.induct)
  case (1 n)
  then show ?case
    by (subst decimal.simps) (simp add: digit_char_ok)
qed

lemma value_of_decimal: "value_of (decimal n) = n"
proof (induction n rule: decimal.induct)
  case (1 n)
  show ?case
  proof (cases "n < 10")
    case True
    then show ?thesis
      by (subst decimal.simps) (simp add: value_of_def digit_char_ok)
  next
    case False
    with 1 have "value_of (decimal (n div 10)) = n div 10" by simp
    with False show ?thesis
      by (subst decimal.simps) (simp add: value_of_snoc digit_char_ok)
  qed
qed

lemma length_decimal: "n < 10 ^ Suc w \<Longrightarrow> length (decimal n) \<le> Suc w"
proof (induction w arbitrary: n)
  case 0
  then show ?case by (subst decimal.simps) simp
next
  case (Suc w)
  show ?case
  proof (cases "n < 10")
    case True
    then show ?thesis by (subst decimal.simps) simp
  next
    case False
    from Suc.prems have "n div 10 < 10 ^ Suc w" by simp
    from Suc.IH [OF this] False show ?thesis by (subst decimal.simps) simp
  qed
qed

lemma value_of_zeros: "value_of (replicate k (CHR ''0'') @ s) = value_of s"
  by (induction k) (simp_all add: value_of_def digit_value_def)

lemma pad_ok:
  assumes "0 \<le> n" and "n < 10 ^ Suc w"
  shows "length (pad (Suc w) n) = Suc w"
    and "list_all is_digit (pad (Suc w) n)"
    and "value_of (pad (Suc w) n) = nat n"
proof -
  from assms have "nat n < 10 ^ Suc w" by (simp add: nat_less_iff)
  from length_decimal [OF this]
  show "length (pad (Suc w) n) = Suc w" by (simp add: pad_def padStart_def)
  have z: "is_digit (CHR ''0'')" by (simp add: is_digit_def)
  have d: "\<And>x. x \<in> set (decimal (nat n)) \<Longrightarrow> is_digit x"
    using decimal_digits [of "nat n"] by (simp add: list_all_iff)
  show "list_all is_digit (pad (Suc w) n)"
    unfolding pad_def padStart_def list_all_iff using z d by auto
  show "value_of (pad (Suc w) n) = nat n"
    by (simp add: pad_def padStart_def value_of_zeros value_of_decimal)
qed

lemma DayFromYear_1970: "DayFromYear 1970 = 0"
  by (simp add: DayFromYear_def)

lemma DaysInYear_bounds: "365 \<le> DaysInYear y \<and> DaysInYear y \<le> 366"
  by (simp add: DaysInYear_def)

lemma DayFromYear_after: "365 * int k \<le> DayFromYear (1970 + int k) \<and> DayFromYear (1970 + int k) \<le> 366 * int k"
proof (induction k)
  case 0
  then show ?case by (simp add: DayFromYear_1970)
next
  case (Suc k)
  have "DayFromYear (1970 + int (Suc k)) = DayFromYear (1970 + int k) + DaysInYear (1970 + int k)"
    using DayFromYear_Suc [of "1970 + int k"] by (simp add: algebra_simps)
  with Suc DaysInYear_bounds [of "1970 + int k"] show ?case by simp
qed

lemma DayFromYear_before: "DayFromYear (1970 - int k) \<le> - 365 * int k"
proof (induction k)
  case 0
  then show ?case by (simp add: DayFromYear_1970)
next
  case (Suc k)
  have "DayFromYear (1970 - int k) =
          DayFromYear (1970 - int (Suc k)) + DaysInYear (1970 - int (Suc k))"
    using DayFromYear_Suc [of "1970 - int (Suc k)"] by (simp add: algebra_simps)
  with Suc DaysInYear_bounds [of "1970 - int (Suc k)"] show ?case by simp
qed

lemma year_search_spec:
  "DayFromYear y \<le> d \<Longrightarrow>
   DayFromYear (year_search d y) \<le> d \<and> d < DayFromYear (year_search d y + 1)"
proof (induction d y rule: year_search.induct)
  case (1 d y)
  show ?case
  proof (cases "DayFromYear (y + 1) \<le> d")
    case True
    with 1 show ?thesis by (subst (1 2) year_search.simps) simp
  next
    case False
    with 1 show ?thesis by (subst (1 2) year_search.simps) simp
  qed
qed

lemma year_start: "DayFromYear (1970 + (if 0 \<le> d then d div 366 else d div 365)) \<le> d"
proof (cases "0 \<le> d")
  case True
  then have "0 \<le> d div 366" by simp
  then obtain k where k: "d div 366 = int k" using nonneg_int_cases by blast
  have "366 * (d div 366) \<le> d" using True by (simp add: algebra_simps)
  with DayFromYear_after [of k] k True show ?thesis by simp
next
  case False
  then have "d div 365 < 0" by (simp add: div_neg_pos_less0)
  then obtain k where k: "d div 365 = - int k"
    by (metis int_cases2 less_le_not_le of_nat_0_le_iff)
  have "365 * (d div 365) \<le> d" by (simp add: algebra_simps)
  with DayFromYear_before [of k] k False show ?thesis by simp
qed

lemma YearFromDay_spec:
  "DayFromYear (YearFromDay d) \<le> d \<and> d < DayFromYear (YearFromDay d + 1)"
  unfolding YearFromDay_def by (rule year_search_spec [OF year_start])

lemma DayWithinYear_bounds:
  "0 \<le> DayWithinYear t \<and> DayWithinYear t < DaysInYear (YearFromTime t)"
  using YearFromDay_spec [of "Day t"] DayFromYear_Suc [of "YearFromTime t"]
  by (simp add: DayWithinYear_def YearFromTime_def)

lemma Month_bounds: "0 \<le> MonthFromTime t \<and> MonthFromTime t \<le> 11"
  using DayWithinYear_bounds [of t]
  by (simp add: MonthFromTime_def Let_def)

lemma Date_bounds: "1 \<le> DateFromTime t \<and> DateFromTime t \<le> 31"
proof -
  have l: "InLeapYear t = 0 \<or> InLeapYear t = 1" by (simp add: InLeapYear_def)
  have d: "0 \<le> DayWithinYear t" "DayWithinYear t < 365 + InLeapYear t"
    using DayWithinYear_bounds [of t] DaysInYear_bounds [of "YearFromTime t"]
    by (auto simp: InLeapYear_def)
  show ?thesis
    unfolding DateFromTime_def MonthFromTime_def Let_def using l d by auto
qed

lemma mod_range: "0 < k \<Longrightarrow> 0 \<le> (x::int) mod k \<and> x mod k \<le> k - 1"
  by (simp add: zle_diff1_eq)

lemma clock_bounds:
  "0 \<le> HourFromTime t \<and> HourFromTime t \<le> 23
   \<and> 0 \<le> MinFromTime t \<and> MinFromTime t \<le> 59
   \<and> 0 \<le> SecFromTime t \<and> SecFromTime t \<le> 59
   \<and> 0 \<le> msFromTime t \<and> msFromTime t \<le> 999"
  using mod_range [of 24 "t div 3600000"] mod_range [of 60 "t div 60000"]
    mod_range [of 60 "t div 1000"] mod_range [of 1000 t]
  by (simp add: HourFromTime_def MinFromTime_def SecFromTime_def msFromTime_def)

lemma Year_bounds:
  assumes "valid_time t"
  shows "- 999999 \<le> YearFromTime t \<and> YearFromTime t \<le> 999999"
proof -
  let ?d = "Day t" and ?y = "YearFromTime t"
  from assms have "- 8640000000000000 \<le> t" "t \<le> 8640000000000000"
    by (simp_all add: valid_time_def)
  from zdiv_mono1 [OF this(1), of 86400000] zdiv_mono1 [OF this(2), of 86400000]
  have d: "- 100000000 \<le> ?d" "?d \<le> 100000000"
    by (simp_all add: Day_def msPerDay_def)
  from YearFromDay_spec [of ?d] have s: "DayFromYear ?y \<le> ?d" "?d < DayFromYear (?y + 1)"
    by (simp_all add: YearFromTime_def)
  have "?y \<le> 999999"
  proof (cases "1970 \<le> ?y")
    case True
    then obtain k where k: "?y = 1970 + int k"
      by (metis add.commute diff_add_cancel diff_ge_0_iff_ge nonneg_int_cases)
    from DayFromYear_after [of k] s(1) d(2) k show ?thesis by simp
  next
    case False
    then show ?thesis by simp
  qed
  moreover have "- 999999 \<le> ?y"
  proof (cases "?y + 1 \<le> 1970")
    case True
    then obtain k where k: "?y + 1 = 1970 - int k"
      by (metis add.commute diff_add_cancel diff_ge_0_iff_ge nonneg_int_cases diff_diff_eq2)
    from DayFromYear_before [of k] s(2) d(1) k show ?thesis by simp
  next
    case False
    then show ?thesis by simp
  qed
  ultimately show ?thesis by simp
qed

lemma pad2_ok:
  assumes "0 \<le> n" and "n < 100"
  shows "length (pad 2 n) = 2 \<and> list_all is_digit (pad 2 n) \<and> value_of (pad 2 n) = nat n"
  using pad_ok [of n 1] assms by (simp add: numeral_2_eq_2)

lemma pad3_ok:
  assumes "0 \<le> n" and "n < 1000"
  shows "length (pad 3 n) = 3 \<and> list_all is_digit (pad 3 n) \<and> value_of (pad 3 n) = nat n"
  using pad_ok [of n 2] assms by (simp add: numeral_3_eq_3)

lemma pad4_ok:
  assumes "0 \<le> n" and "n < 10000"
  shows "length (pad 4 n) = 4 \<and> list_all is_digit (pad 4 n) \<and> value_of (pad 4 n) = nat n"
  using pad_ok [of n 3] assms by (simp add: eval_nat_numeral)

lemma pad6_ok:
  assumes "0 \<le> n" and "n < 1000000"
  shows "length (pad 6 n) = 6 \<and> list_all is_digit (pad 6 n) \<and> value_of (pad 6 n) = nat n"
  using pad_ok [of n 5] assms by (simp add: eval_nat_numeral)

lemma field_prefix:
  assumes "length f = w" and "list_all is_digit f" and "lo \<le> value_of f" and "value_of f \<le> hi"
  shows "field 0 w lo hi (f @ rest)"
  using assms by (simp add: field_def)

lemma field_at:
  assumes "length pre = off" and "length f = w" and "list_all is_digit f"
      and "lo \<le> value_of f" and "value_of f \<le> hi"
  shows "field off w lo hi (pre @ f @ rest)"
  using assms by (simp add: field_def)

lemma date_time_tail_ok:
  assumes a: "length a = 2" "list_all is_digit a" "1 \<le> value_of a" "value_of a \<le> 12"
      and b: "length b = 2" "list_all is_digit b" "1 \<le> value_of b" "value_of b \<le> 31"
      and c: "length c = 2" "list_all is_digit c" "value_of c \<le> 23"
      and d: "length d = 2" "list_all is_digit d" "value_of d \<le> 59"
      and e: "length e = 2" "list_all is_digit e" "value_of e \<le> 59"
      and f: "length f = 3" "list_all is_digit f" "value_of f \<le> 999"
  shows "date_time_tail (''-'' @ a @ ''-'' @ b @ ''T'' @ c @ '':'' @ d @ '':'' @ e @ ''.'' @ f @ ''Z'')"
proof -
  let ?s = "''-'' @ a @ ''-'' @ b @ ''T'' @ c @ '':'' @ d @ '':'' @ e @ ''.'' @ f @ ''Z''"
  have len: "length ?s = 20" using a(1) b(1) c(1) d(1) e(1) f(1) by simp
  have f1: "field 1 2 1 12 ?s"
    using field_at [of "''-''" 1 a 2 1 12] a by simp
  have f2: "field 4 2 1 31 ?s"
    using field_at [of "''-'' @ a @ ''-''" 4 b 2 1 31] a(1) b by simp
  have f3: "field 7 2 0 23 ?s"
    using field_at [of "''-'' @ a @ ''-'' @ b @ ''T''" 7 c 2 0 23] a(1) b(1) c by simp
  have f4: "field 10 2 0 59 ?s"
    using field_at [of "''-'' @ a @ ''-'' @ b @ ''T'' @ c @ '':''" 10 d 2 0 59]
      a(1) b(1) c(1) d by simp
  have f5: "field 13 2 0 59 ?s"
    using field_at [of "''-'' @ a @ ''-'' @ b @ ''T'' @ c @ '':'' @ d @ '':''" 13 e 2 0 59]
      a(1) b(1) c(1) d(1) e by simp
  have f6: "field 16 3 0 999 ?s"
    using field_at [of "''-'' @ a @ ''-'' @ b @ ''T'' @ c @ '':'' @ d @ '':'' @ e @ ''.''" 16 f 3 0 999]
      a(1) b(1) c(1) d(1) e(1) f by simp
  have n: "?s ! 0 = CHR ''-''" "?s ! 3 = CHR ''-''" "?s ! 6 = CHR ''T''" "?s ! 9 = CHR '':''"
    "?s ! 12 = CHR '':''" "?s ! 15 = CHR ''.''" "?s ! 19 = CHR ''Z''"
    using a(1) b(1) c(1) d(1) e(1) f(1) by (simp_all add: nth_append nth_Cons')
  from len f1 f2 f3 f4 f5 f6 n show ?thesis
    unfolding date_time_tail_def by blast
qed

lemma toISOString_split:
  "toISOString t =
     (if 0 \<le> YearFromTime t \<and> YearFromTime t \<le> 9999 then pad 4 (YearFromTime t)
      else (if 0 \<le> YearFromTime t then ''+'' else ''-'') @ pad 6 (abs (YearFromTime t)))
     @ iso_tail t"
  by (simp add: toISOString_def iso_tail_def Let_def)

lemma iso_tail_ok: "date_time_tail (iso_tail t)"
proof -
  from Month_bounds [of t] have m: "0 \<le> MonthFromTime t + 1" "MonthFromTime t + 1 < 100"
    "1 \<le> nat (MonthFromTime t + 1)" "nat (MonthFromTime t + 1) \<le> 12" by arith+
  from Date_bounds [of t] have d: "0 \<le> DateFromTime t" "DateFromTime t < 100"
    "1 \<le> nat (DateFromTime t)" "nat (DateFromTime t) \<le> 31" by arith+
  from clock_bounds [of t] have c:
    "0 \<le> HourFromTime t" "HourFromTime t < 100" "nat (HourFromTime t) \<le> 23"
    "0 \<le> MinFromTime t" "MinFromTime t < 100" "nat (MinFromTime t) \<le> 59"
    "0 \<le> SecFromTime t" "SecFromTime t < 100" "nat (SecFromTime t) \<le> 59"
    "0 \<le> msFromTime t" "msFromTime t < 1000" "nat (msFromTime t) \<le> 999" by arith+
  show ?thesis
    unfolding iso_tail_def
    using pad2_ok [OF m(1,2)] pad2_ok [OF d(1,2)] pad2_ok [OF c(1,2)] pad2_ok [OF c(4,5)]
      pad2_ok [OF c(7,8)] pad3_ok [OF c(10,11)] m(3,4) d(3,4) c(3,6,9,12)
    by (intro date_time_tail_ok) simp_all
qed

lemma digit_not_sign: "is_digit c \<Longrightarrow> c \<noteq> CHR ''+'' \<and> c \<noteq> CHR ''-''"
  by (auto simp: is_digit_def)

lemma toISOString_is_date_time:
  assumes "valid_time t"
  shows "is_date_time (toISOString t)"
proof (cases "0 \<le> YearFromTime t \<and> YearFromTime t \<le> 9999")
  case True
  then have y: "0 \<le> YearFromTime t" "YearFromTime t < 10000" by simp_all
  let ?Y = "pad 4 (YearFromTime t)"
  from pad4_ok [OF y] have p: "length ?Y = 4" "list_all is_digit ?Y"
    "value_of ?Y = nat (YearFromTime t)" by simp_all
  from p(1) obtain c rest where Y: "?Y = c # rest"
    by (cases ?Y) simp_all
  with p(2) have "is_digit c" by simp
  from digit_not_sign [OF this] have sign: "c \<noteq> CHR ''+''" "c \<noteq> CHR ''-''" by simp_all
  have f: "field 0 4 0 9999 (?Y @ iso_tail t)"
    using p y by (intro field_prefix) simp_all
  have "drop 4 (?Y @ iso_tail t) = iso_tail t" using p(1) by simp
  with iso_tail_ok [of t] have tl: "date_time_tail (drop 4 (?Y @ iso_tail t))" by simp
  have "toISOString t = ?Y @ iso_tail t" using True by (simp add: toISOString_split)
  moreover have "is_date_time (?Y @ iso_tail t)"
    using f tl sign unfolding is_date_time_def Y by simp
  ultimately show ?thesis by simp
next
  case False
  let ?Y = "pad 6 (abs (YearFromTime t))"
  let ?c = "if 0 \<le> YearFromTime t then CHR ''+'' else CHR ''-''"
  from Year_bounds [OF assms] have y: "0 \<le> abs (YearFromTime t)" "abs (YearFromTime t) < 1000000"
    by arith+
  from pad6_ok [OF y] have p: "length ?Y = 6" "list_all is_digit ?Y"
    "value_of ?Y = nat (abs (YearFromTime t))" by simp_all
  have f: "field 0 6 0 999999 (?Y @ iso_tail t)"
    using p y by (intro field_prefix) simp_all
  have "drop 6 (?Y @ iso_tail t) = iso_tail t" using p(1) by simp
  with iso_tail_ok [of t] have tl: "date_time_tail (drop 6 (?Y @ iso_tail t))" by simp
  have tk: "take 6 (?Y @ iso_tail t) = ?Y" using p(1) by simp
  have nz: "\<not> (?c = CHR ''-'' \<and> value_of (take 6 (?Y @ iso_tail t)) = 0)"
    unfolding tk p(3) by auto
  have "toISOString t = ?c # (?Y @ iso_tail t)" using False by (simp add: toISOString_split)
  moreover have "is_date_time (?c # (?Y @ iso_tail t))"
    using f tl nz unfolding is_date_time_def by simp
  ultimately show ?thesis by simp
qed

section \<open>The handler\<close>

text \<open>
  Claim C1. When the body is read, the validator accepts it and the generation returns
  an object of files, the response has status 200, its \<open>files\<close> has the keys of the
  generated object in the same order, \<open>metadata.fileCount\<close> is the number of distinct
  keys of \<open>files\<close>, and \<open>metadata.files\<close> is the list of those keys in that order.
\<close>

theorem success_metadata_matches_files:
  assumes "req_json rq = Inr body" and "safeParse openApiSchema body = Inr spec"
      and "generateObject rq (generation_call googleClient spec) = Inr generatedFiles"
      and "distinct_keys generatedFiles"
  shows "\<exists>md fs.
           status (fst (generate_handler googleClient rq)) = 200
         \<and> get_prop (payload (fst (generate_handler googleClient rq))) ''metadata'' = Some md
         \<and> get_prop (payload (fst (generate_handler googleClient rq))) ''files'' = Some (JObj fs)
         \<and> Object_keys fs = Object_keys generatedFiles
         \<and> get_prop md ''fileCount'' = Some (JNum (Finite (decimal (card (set (Object_keys fs))))))
         \<and> get_prop md ''files'' = Some (JArr (map JStr (Object_keys fs)))"
proof -
  from handler_success [OF assms(1-3)] obtain t v where
    h: "generate_handler googleClient rq =
           (success_response (Some (JStr t)) (Some (JStr v)) (now rq) generatedFiles,
            [generation_call googleClient spec])" by blast
  let ?fs = "map (\<lambda>kv. (fst kv, JStr (snd kv))) generatedFiles"
  have k: "Object_keys ?fs = Object_keys generatedFiles"
    by (simp add: Object_keys_def comp_def)
  have c: "card (set (Object_keys generatedFiles)) = length (Object_keys generatedFiles)"
    using assms(4) by (simp add: distinct_keys_def distinct_card)
  have "get_prop (payload (fst (generate_handler googleClient rq))) ''files'' = Some (JObj ?fs)"
    and "get_prop (payload (fst (generate_handler googleClient rq))) ''metadata'' =
           Some (JObj [(''apiTitle'', JStr t), (''apiVersion'', JStr v),
                       (''generatedAt'', JStr (toISOString (now rq))),
                       (''fileCount'', JNum (Finite (decimal (card (set (Object_keys ?fs)))))),
                       (''files'', JArr (map JStr (Object_keys ?fs)))])"
    and "status (fst (generate_handler googleClient rq)) = 200"
    unfolding h k c by (simp_all add: success_response_def get_prop_def)
  then show ?thesis using k by (simp add: get_prop_def)
qed

theorem success_metadata_matches_files_witness:
  "req_json (request_of doc_minimal generator_two) = Inr doc_minimal
   \<and> safeParse openApiSchema doc_minimal = Inr doc_minimal
   \<and> generateObject (request_of doc_minimal generator_two) (generation_call ''key'' doc_minimal)
       = Inr files_two
   \<and> distinct_keys files_two
   \<and> (\<exists>md fs.
         status (fst (generate_handler ''key'' (request_of doc_minimal generator_two))) = 200
       \<and> get_prop (payload (fst (generate_handler ''key'' (request_of doc_minimal generator_two))))
            ''metadata'' = Some md
       \<and> get_prop (payload (fst (generate_handler ''key'' (request_of doc_minimal generator_two))))
            ''files'' = Some (JObj fs)
       \<and> Object_keys fs = [''package.json'', ''src/index.ts'']
       \<and> get_prop md ''fileCount'' = Some (JNum (Finite (decimal (card (set (Object_keys fs))))))
       \<and> get_prop md ''files'' = Some (JArr (map JStr (Object_keys fs))))"
  using success_metadata_matches_files [of "request_of doc_minimal generator_two" doc_minimal doc_minimal
      "''key''" files_two, OF _ parse_doc_minimal]
  by (simp add: request_of_def parse_doc_minimal generator_two_def distinct_keys_def
      Object_keys_def files_two_def)

text \<open>
  Claim C7. When the validator rejects the body, the handler answers with status 400,
  the validation error and its formatted issues, and has made no call of the external
  generation.
\<close>

theorem rejected_never_generates:
  assumes "req_json rq = Inr body" and "safeParse openApiSchema body = Inl zerr"
  shows "fst (generate_handler googleClient rq) =
           \<lparr>status = 400,
            payload = JObj [(''error'', JStr ''Invalid OpenAPI specification''),
                            (''details'', format zerr)]\<rparr>
         \<and> snd (generate_handler googleClient rq) = []"
  using handler_rejected [OF assms] by simp

theorem rejected_never_generates_witness:
  "req_json (request_of doc_swagger2 generator_two) = Inr doc_swagger2
   \<and> safeParse openApiSchema doc_swagger2 =
       Inl [\<lparr>code = invalid_string, path = [''openapi''], message = ''Must be OpenAPI 3.x.x''\<rparr>]
   \<and> status (fst (generate_handler ''key'' (request_of doc_swagger2 generator_two))) = 400
   \<and> snd (generate_handler ''key'' (request_of doc_swagger2 generator_two)) = []"
  using rejected_never_generates [of "request_of doc_swagger2 generator_two" doc_swagger2 _ "''key''",
      OF _ parse_doc_swagger2]
  by (simp add: request_of_def parse_doc_swagger2)

text \<open>
  Claim C8. Two requests whose bodies validate to the same specification hand the same
  system prompt and the same user prompt to the generation, whatever their clients,
  clocks and generation outcomes: the system prompt is the constant, the user prompt is
  a function of the validated specification alone.
\<close>

theorem prompts_depend_on_specification_only:
  assumes "req_json rq1 = Inr body1" and "safeParse openApiSchema body1 = Inr spec"
      and "req_json rq2 = Inr body2" and "safeParse openApiSchema body2 = Inr spec"
  shows "map system (snd (generate_handler client1 rq1)) = [systemPrompt]
       \<and> map system (snd (generate_handler client2 rq2)) = [systemPrompt]
       \<and> map prompt (snd (generate_handler client1 rq1)) = [userPrompt spec]
       \<and> map prompt (snd (generate_handler client2 rq2)) = [userPrompt spec]"
proof -
  have calls: "snd (generate_handler c rq) = [generation_call c spec]"
    if "req_json rq = Inr body" "safeParse openApiSchema body = Inr spec" for c rq body
  proof (cases "generateObject rq (generation_call c spec)")
    case (Inl e)
    from handler_generation_failed [OF that Inl] show ?thesis by simp
  next
    case (Inr fs)
    from handler_success [OF that Inr] show ?thesis by auto
  qed
  from calls [OF assms(1,2)] calls [OF assms(3,4)]
  show ?thesis by (simp add: generation_call_def)
qed

theorem prompts_depend_on_specification_only_witness:
  "req_json (request_of doc_minimal generator_two) = Inr doc_minimal
   \<and> safeParse openApiSchema doc_minimal = Inr doc_minimal
   \<and> req_json (request_of doc_described generator_auth_failure) = Inr doc_described
   \<and> safeParse openApiSchema doc_described = Inr doc_minimal
   \<and> map system (snd (generate_handler ''key'' (request_of doc_minimal generator_two))) =
       map system (snd (generate_handler ''other'' (request_of doc_described generator_auth_failure)))
   \<and> map prompt (snd (generate_handler ''key'' (request_of doc_minimal generator_two))) =
       map prompt (snd (generate_handler ''other'' (request_of doc_described generator_auth_failure)))"
  using prompts_depend_on_specification_only [of "request_of doc_minimal generator_two" doc_minimal doc_minimal
      "request_of doc_described generator_auth_failure" doc_described "''key''" "''other''",
      OF _ parse_doc_minimal _ parse_doc_described]
  by (simp add: request_of_def parse_doc_minimal parse_doc_described)

text \<open>
  Claim C4, as amended. For every document the validator accepts, the validated value
  is the document cut down to the fields the schema declares, in the schema's order,
  with the values the document has for them and nothing added; validating it again
  returns it unchanged. The user prompt embeds the pretty-printed validated value,
  which is the pretty-printed input whenever the document has no other fields.
\<close>

theorem validated_value_is_declared_part:
  assumes "safeParse openApiSchema body = Inr spec"
  shows "spec = declared_fields body
       \<and> safeParse openApiSchema spec = Inr spec
       \<and> prompt (generation_call googleClient spec) =
           ''Generate a complete Hono.js project for this OpenAPI specification:\<newline>\<newline>''
             @ JSON_stringify (declared_fields body) 2
       \<and> (declared_fields body = body \<longrightarrow> JSON_stringify spec 2 = JSON_stringify body 2)"
  using accepted_value [OF assms] declared_fields_idem [OF assms]
  by (simp add: generation_call_def userPrompt_def)

theorem validated_value_is_declared_part_witness:
  "safeParse openApiSchema doc_described = Inr doc_minimal
   \<and> doc_minimal = declared_fields doc_described
   \<and> safeParse openApiSchema doc_minimal = Inr doc_minimal
   \<and> declared_fields doc_minimal = doc_minimal"
proof -
  from validated_value_is_declared_part [OF parse_doc_described, of "''key''"]
  have a: "doc_minimal = declared_fields doc_described" by blast
  from validated_value_is_declared_part [OF parse_doc_minimal, of "''key''"]
  have b: "doc_minimal = declared_fields doc_minimal" by blast
  from a b [symmetric] parse_doc_described parse_doc_minimal show ?thesis by blast
qed

text \<open>
  The claim as stated fails for a document with a field the schema does not declare:
  a description inside \<open>info\<close> is left out of the validated value, so the text in the
  prompt differs from the pretty-printed input.
\<close>

theorem undeclared_field_is_stripped:
  "safeParse openApiSchema doc_described = Inr doc_minimal
   \<and> JSON_stringify doc_minimal 2 \<noteq> JSON_stringify doc_described 2"
  unfolding stringify_doc_minimal stringify_doc_described
  by (simp add: parse_doc_described)

text \<open>
  Claim C6, as amended. Every response of the handler has status 200, 400 or 500, and
  every one that is not 200 has an \<open>error\<close> string. A validation failure (400) has
  \<open>details\<close> and neither \<open>message\<close> nor \<open>timestamp\<close>. A caught failure (500) has a
  \<open>timestamp\<close> and no \<open>details\<close>, and has a \<open>message\<close> exactly when the thrown value
  was an \<open>Error\<close>, which is when the error string is \<open>Code generation failed\<close>.
\<close>

theorem failure_envelopes:
  "(status (fst (generate_handler googleClient rq)) = 200
      \<or> status (fst (generate_handler googleClient rq)) = 400
      \<or> status (fst (generate_handler googleClient rq)) = 500)
   \<and> (status (fst (generate_handler googleClient rq)) \<noteq> 200 \<longrightarrow>
        (\<exists>c. get_prop (payload (fst (generate_handler googleClient rq))) ''error'' = Some (JStr c)))
   \<and> (status (fst (generate_handler googleClient rq)) = 400 \<longrightarrow>
          has_key (payload (fst (generate_handler googleClient rq))) ''details''
        \<and> \<not> has_key (payload (fst (generate_handler googleClient rq))) ''message''
        \<and> \<not> has_key (payload (fst (generate_handler googleClient rq))) ''timestamp'')
   \<and> (status (fst (generate_handler googleClient rq)) = 500 \<longrightarrow>
          has_key (payload (fst (generate_handler googleClient rq))) ''timestamp''
        \<and> \<not> has_key (payload (fst (generate_handler googleClient rq))) ''details''
        \<and> (has_key (payload (fst (generate_handler googleClient rq))) ''message'' \<longleftrightarrow>
             get_prop (payload (fst (generate_handler googleClient rq))) ''error'' =
               Some (JStr ''Code generation failed'')))"
proof (cases "req_json rq")
  case (Inl e)
  from handler_body_unreadable [OF Inl, of googleClient] catch_shape [of e "now rq"]
    catch_message [of e "now rq"]
  show ?thesis by simp
next
  case body: (Inr body)
  show ?thesis
  proof (cases "safeParse openApiSchema body")
    case (Inl zerr)
    from handler_rejected [OF body Inl, of googleClient]
    show ?thesis by (simp add: get_prop_def has_key_def Object_keys_def)
  next
    case spec: (Inr spec)
    show ?thesis
    proof (cases "generateObject rq (generation_call googleClient spec)")
      case (Inl e)
      from handler_generation_failed [OF body spec Inl] catch_shape [of e "now rq"]
        catch_message [of e "now rq"]
      show ?thesis by simp
    next
      case (Inr generatedFiles)
      from handler_success [OF body spec Inr]
      show ?thesis by (auto simp: success_response_def)
    qed
  qed
qed

theorem failure_envelopes_witness:
  "status (fst (generate_handler ''key'' (request_of doc_swagger2 generator_two))) = 400
   \<and> has_key (payload (fst (generate_handler ''key'' (request_of doc_swagger2 generator_two))))
         ''details''
   \<and> status (fst (generate_handler ''key'' (request_of doc_minimal generator_auth_failure))) = 500
   \<and> has_key (payload (fst (generate_handler ''key'' (request_of doc_minimal generator_auth_failure))))
         ''timestamp''
   \<and> has_key (payload (fst (generate_handler ''key'' (request_of doc_minimal generator_auth_failure))))
         ''message''"
proof -
  have a: "status (fst (generate_handler ''key'' (request_of doc_swagger2 generator_two))) = 400"
    unfolding handler_swagger2 by simp
  have b: "status (fst (generate_handler ''key'' (request_of doc_minimal generator_auth_failure))) = 500"
    and c: "get_prop (payload (fst (generate_handler ''key''
               (request_of doc_minimal generator_auth_failure)))) ''error'' =
             Some (JStr ''Code generation failed'')"
    unfolding handler_auth_failure by (simp_all add: generate_catch_def get_prop_def)
  from failure_envelopes [of "''key''" "request_of doc_swagger2 generator_two"]
    failure_envelopes [of "''key''" "request_of doc_minimal generator_auth_failure"] a b c
  show ?thesis by simp
qed

text \<open>
  The claim as stated fails for a validation failure: its response has no timestamp.
\<close>

theorem validation_failure_has_no_timestamp:
  "status (fst (generate_handler ''key'' (request_of doc_swagger2 generator_two))) = 400
   \<and> \<not> has_key (payload (fst (generate_handler ''key'' (request_of doc_swagger2 generator_two))))
         ''timestamp''"
  unfolding handler_swagger2 by (simp add: has_key_def Object_keys_def)

lemma iso_example: "toISOString 1762166400123 = ''2025-11-03T10:40:00.123Z''"
  by code_simp

text \<open>
  Claim C5. When the body is read, the validator accepts it and the generation throws,
  whatever it throws, the response has status 500, has an \<open>error\<close> property, has a
  \<open>timestamp\<close> that is the clock's text, which reads back as a date-time for every
  time value a clock can give, and has no \<open>files\<close> property.
\<close>

theorem generation_failure_response:
  assumes "req_json rq = Inr body" and "safeParse openApiSchema body = Inr spec"
      and "generateObject rq (generation_call googleClient spec) = Inl e"
      and "valid_time (now rq)"
  shows "status (fst (generate_handler googleClient rq)) = 500
       \<and> has_key (payload (fst (generate_handler googleClient rq))) ''error''
       \<and> get_prop (payload (fst (generate_handler googleClient rq))) ''timestamp'' =
           Some (JStr (toISOString (now rq)))
       \<and> is_date_time (toISOString (now rq))
       \<and> \<not> has_key (payload (fst (generate_handler googleClient rq))) ''files''"
  using handler_generation_failed [OF assms(1-3)] catch_shape [of e "now rq"]
    toISOString_is_date_time [OF assms(4)]
  by simp

theorem generation_failure_response_witness:
  "req_json (request_of doc_minimal generator_auth_failure) = Inr doc_minimal
   \<and> safeParse openApiSchema doc_minimal = Inr doc_minimal
   \<and> generateObject (request_of doc_minimal generator_auth_failure)
         (generation_call ''key'' doc_minimal) = Inl (Error_instance ''API key not valid'')
   \<and> valid_time (now (request_of doc_minimal generator_auth_failure))
   \<and> status (fst (generate_handler ''key'' (request_of doc_minimal generator_auth_failure))) = 500
   \<and> has_key (payload (fst (generate_handler ''key''
         (request_of doc_minimal generator_auth_failure)))) ''error''
   \<and> get_prop (payload (fst (generate_handler ''key''
         (request_of doc_minimal generator_auth_failure)))) ''timestamp'' =
         Some (JStr ''2025-11-03T10:40:00.123Z'')
   \<and> is_date_time ''2025-11-03T10:40:00.123Z''
   \<and> \<not> has_key (payload (fst (generate_handler ''key''
         (request_of doc_minimal generator_auth_failure)))) ''files''"
  using generation_failure_response [of "request_of doc_minimal generator_auth_failure" doc_minimal doc_minimal
      "''key''" "Error_instance ''API key not valid''", OF _ parse_doc_minimal]
    iso_example
  by (simp add: request_of_def generator_auth_failure_def parse_doc_minimal valid_time_def)

section \<open>Start-up refuses to run without a key\<close>

text \<open>
  Claim C9. When the process environment holds no usable credential, that is, when
  \<open>GOOGLE_API_KEY\<close> is not set or is the empty string, loading the module throws before
  \<open>serve\<close> is reached: the process does not start serving.
\<close>

theorem start_without_key_fails:
  assumes "process_env ''GOOGLE_API_KEY'' = None \<or> process_env ''GOOGLE_API_KEY'' = Some []"
  shows "start process_env =
           Inl (Error_instance ''GOOGLE_API_KEY is not set in the environment variables'')"
  using assms by (auto simp: start_def load_env_def)

theorem start_without_key_fails_witness:
  "(Map.empty(''PORT'' \<mapsto> ''8080'')) ''GOOGLE_API_KEY'' = None
   \<and> start (Map.empty(''PORT'' \<mapsto> ''8080'')) =
         Inl (Error_instance ''GOOGLE_API_KEY is not set in the environment variables'')"
  using start_without_key_fails [of "Map.empty(''PORT'' \<mapsto> ''8080'')"] by simp

end
